theory Spec2Isabelle
  imports Main "HOL-Library.Sublist"
begin

section \<open>JavaScript strings as used by buildindex.js\<close>

text \<open>
  Strings are lists of characters. An optional string option or field that the source tests
  with JavaScript truthiness (\<^verbatim>\<open>x || dflt\<close>, \<^verbatim>\<open>filePath ? ... : ''\<close>) is modelled as a
  string in which the empty string stands for every falsy value (\<^verbatim>\<open>undefined\<close>, \<^verbatim>\<open>''\<close>):
  the source never tells the two apart.
\<close>

definition newline :: string where
  "newline = [CHR 0x0A]"

definition jsOr :: "string \<Rightarrow> string \<Rightarrow> string" where
  \<comment> \<open>\<^verbatim>\<open>a || b\<close> on strings: the first operand unless it is falsy (empty).\<close>
  "jsOr a b = (if a \<noteq> [] then a else b)"

text \<open>
  \<^verbatim>\<open>str.split('\n')\<close>: the pieces between line feeds; the empty string splits into one
  empty piece, and a trailing line feed gives a last empty piece.
\<close>

fun splitLines :: "string \<Rightarrow> string list" where
  "splitLines [] = [[]]"
| "splitLines (c # cs) =
     (if c = CHR 0x0A then [] # splitLines cs
      else (c # hd (splitLines cs)) # tl (splitLines cs))"

text \<open>\<^verbatim>\<open>arr.join(sep)\<close>.\<close>

fun joinWith :: "string \<Rightarrow> string list \<Rightarrow> string" where
  "joinWith sep [] = []"
| "joinWith sep [x] = x"
| "joinWith sep (x # y # ys) = x @ sep @ joinWith sep (y # ys)"

text \<open>
  The first occurrence of a search string, as \<^verbatim>\<open>indexOf\<close> finds it: the text before it and
  the text after it.
\<close>

fun findFirst :: "string \<Rightarrow> string \<Rightarrow> (string \<times> string) option" where
  "findFirst pat [] = (if pat = [] then Some ([], []) else None)"
| "findFirst pat (c # cs) =
     (if prefix pat (c # cs) then Some ([], drop (length pat) (c # cs))
      else map_option (\<lambda>(front, rear). (c # front, rear)) (findFirst pat cs))"

definition includesMarker :: "string \<Rightarrow> string \<Rightarrow> bool" where
  \<comment> \<open>\<^verbatim>\<open>template.indexOf(marker) > -1\<close>\<close>
  "includesMarker marker template = (findFirst marker template \<noteq> None)"

text \<open>
  ECMAScript's GetSubstitution for a match without capture groups: in the replacement text
  \<^verbatim>\<open>$$\<close> stands for a dollar sign, \<^verbatim>\<open>$&\<close> for the matched text, \<^verbatim>\<open>$\<close> followed by a backtick
  (character 0x60) for the text before the match and \<^verbatim>\<open>$'\<close> for the text after it; every
  other character, a lone \<^verbatim>\<open>$\<close> included, stands for itself.
\<close>

fun getSubstitution :: "string \<Rightarrow> string \<Rightarrow> string \<Rightarrow> string \<Rightarrow> string" where
  "getSubstitution matched front rear [] = []"
| "getSubstitution matched front rear [c] = [c]"
| "getSubstitution matched front rear (c # d # r) =
     (if c = CHR ''$'' \<and> d = CHR ''$'' then CHR ''$'' # getSubstitution matched front rear r
      else if c = CHR ''$'' \<and> d = CHR ''&'' then matched @ getSubstitution matched front rear r
      else if c = CHR ''$'' \<and> d = CHR 0x60 then front @ getSubstitution matched front rear r
      else if c = CHR ''$'' \<and> d = CHR 0x27 then rear @ getSubstitution matched front rear r
      else c # getSubstitution matched front rear (d # r))"

text \<open>
  \<^verbatim>\<open>str.replace(pattern, replacement)\<close> with a string pattern: only the first occurrence is
  replaced.
\<close>

definition stringReplace :: "string \<Rightarrow> string \<Rightarrow> string \<Rightarrow> string" where
  "stringReplace pat rep str =
     (case findFirst pat str of
        None \<Rightarrow> str
      | Some (front, rear) \<Rightarrow> front @ getSubstitution pat front rear rep @ rear)"

text \<open>
  \<^verbatim>\<open>str.replace(/literal/g, replacement)\<close> for a regular expression that is a non-empty
  literal, as the three version tokens are: the matches are found from left to right, each
  search resuming after the previous match, and the substitution patterns refer to the whole
  original string (\<open>scanned\<close> is the part of it already passed).
\<close>

function replaceAllFrom :: "string \<Rightarrow> string \<Rightarrow> string \<Rightarrow> string \<Rightarrow> string" where
  "replaceAllFrom pat rep scanned rest =
     (if pat = [] then rest
      else case findFirst pat rest of
        None \<Rightarrow> rest
      | Some (front, rear) \<Rightarrow>
          front @ getSubstitution pat (scanned @ front) rear rep
            @ replaceAllFrom pat rep (scanned @ front @ pat) rear)"
  by pat_completeness auto

lemma findFirst_Some:
  "findFirst pat str = Some (front, rear) \<Longrightarrow> str = front @ pat @ rear"
proof (induction str arbitrary: front)
  case Nil
  then show ?case by (simp split: if_splits)
next
  case (Cons c cs)
  show ?case
  proof (cases "prefix pat (c # cs)")
    case True
    with Cons.prems have "front = []" and "rear = drop (length pat) (c # cs)" by auto
    moreover from True have "c # cs = pat @ drop (length pat) (c # cs)"
      by (metis append_eq_conv_conj prefix_def)
    ultimately show ?thesis by simp
  next
    case False
    with Cons.prems obtain b where b: "findFirst pat cs = Some (b, rear)" and "front = c # b"
      by (auto split: prod.splits)
    with Cons.IH[OF b] show ?thesis by simp
  qed
qed

termination replaceAllFrom
proof (relation "measure (\<lambda>(pat, rep, scanned, rest). length rest)")
  show "wf (measure (\<lambda>(pat, rep, scanned, rest). length rest))" by simp
next
  fix pat rep scanned rest front rear :: string and x2 :: "string \<times> string"
  assume "pat \<noteq> []" and "findFirst pat rest = Some x2" and "(front, rear) = x2"
  then have "rest = front @ pat @ rear" by (metis findFirst_Some)
  with \<open>pat \<noteq> []\<close> show "((pat, rep, scanned @ front @ pat, rear), (pat, rep, scanned, rest))
      \<in> measure (\<lambda>(pat, rep, scanned, rest). length rest)"
    by (cases pat) auto
qed

definition regexReplaceAll :: "string \<Rightarrow> string \<Rightarrow> string \<Rightarrow> string" where
  "regexReplaceAll pat rep str = replaceAllFrom pat rep [] str"

section \<open>Tags and markers\<close>

text \<open>
  The npm package \<^verbatim>\<open>slash\<close> as \<^verbatim>\<open>require('slash')\<close> loads it: backslashes become forward
  slashes, except in an extended-length path (one that starts with two backslashes, a
  question mark and a backslash) and in a path that holds a character above 0x80, which are
  returned as they are.
\<close>

definition slash :: "string \<Rightarrow> string" where
  "slash p =
     (if prefix [CHR 0x5C, CHR 0x5C, CHR ''?'', CHR 0x5C] p \<or> list_ex (\<lambda>c. 128 < (of_char c :: nat)) p
      then p
      else map (\<lambda>c. if c = CHR 0x5C then CHR ''/'' else c) p)"

definition createScriptTag :: "string \<Rightarrow> string" where
  "createScriptTag filePath =
     (if filePath \<noteq> [] then ''<script src=\"'' @ slash filePath @ ''\"></script>'' else [])"

definition createLinkTag :: "string \<Rightarrow> string" where
  "createLinkTag filePath =
     (if filePath \<noteq> [] then ''<link rel=\"stylesheet\" href=\"'' @ slash filePath @ ''\">'' else [])"

definition markerVendorCss :: string where
  "markerVendorCss = ''<!--VENDOR_CSS-->''"

definition markerVendorJs :: string where
  "markerVendorJs = ''<!--VENDOR_JS-->''"

definition markerAppCss :: string where
  "markerAppCss = ''<!--APP_CSS-->''"

definition markerAppJs :: string where
  "markerAppJs = ''<!--APP_JS-->''"

definition tokenVersion :: string where
  "tokenVersion = ''@version@''"

definition tokenAppVersion :: string where
  "tokenAppVersion = ''@appVersion@''"

definition tokenPackageVersion :: string where
  "tokenPackageVersion = ''@packageVersion@''"

definition addAppCss :: "string \<Rightarrow> string \<Rightarrow> string" where
  "addAppCss cssPath template = stringReplace markerAppCss (createLinkTag cssPath) template"

definition addAppScript :: "string \<Rightarrow> string \<Rightarrow> string" where
  "addAppScript scriptPath template = stringReplace markerAppJs (createScriptTag scriptPath) template"

text \<open>
  \<^verbatim>\<open>templatePath.replace(/-template.html$/, '.html')\<close>: the dot of the expression matches any
  character but a line terminator, and the match must end the string, so it can only start
  fourteen characters before the end. The result is used in a console message only.
\<close>

definition htmlFileName :: "string \<Rightarrow> string" where
  "htmlFileName p =
     (let n = length p in
      if 14 \<le> n \<and> take 9 (drop (n - 14) p) = ''-template''
         \<and> p ! (n - 5) \<noteq> CHR 0x0A \<and> p ! (n - 5) \<noteq> CHR 0x0D
         \<and> drop (n - 4) p = ''html''
      then take (n - 14) p @ ''.html''
      else p)"

definition digitChar :: "nat \<Rightarrow> char" where
  \<comment> \<open>the decimal digit of a number below ten\<close>
  "digitChar n = ''0123456789'' ! n"

fun decimal :: "nat \<Rightarrow> string" where
  \<comment> \<open>a number as \<^verbatim>\<open>'' + n\<close> prints it\<close>
  "decimal n = (if n < 10 then [digitChar n] else decimal (n div 10) @ [digitChar (n mod 10)])"

section \<open>The world of a build: files, console, process\<close>

datatype exn =
  Error string
  | FsError string
  | ModuleNotFound string

datatype 'r promise = Fulfilled | Rejected 'r

datatype fsnode = File string | Directory

datatype effect =
  ExistsSync string
  | ReadFileSync string
  | WriteFileSync string string
  | MkdirpSync string
  | ConsoleLog string
  | ConsoleError string
  | ConsoleErrorExn exn
  | Require string
  | RequireResolve string
  | WriteDebugLoader string string
  | ProcessExit nat

record world =
  fs :: "string \<Rightarrow> fsnode option"
  effects :: "effect list"

text \<open>
  What a call does: it returns a value, throws, or ends the process (\<^verbatim>\<open>process.exit\<close>), and
  leaves a world behind. \<open>effects\<close> lists, in order, every access to the file system, the
  console, the module loader and the process.
\<close>

datatype 'a result = Returns 'a | Throws exn | Exits nat

type_synonym 'a io = "world \<Rightarrow> 'a result \<times> world"

definition emit :: "effect \<Rightarrow> world \<Rightarrow> world" where
  "emit e w = w\<lparr>effects := effects w @ [e]\<rparr>"

definition ret :: "'a \<Rightarrow> 'a io" where
  "ret x w = (Returns x, w)"

definition throw :: "exn \<Rightarrow> 'a io" where
  "throw e w = (Throws e, w)"

definition andThen :: "'a io \<Rightarrow> ('a \<Rightarrow> 'b io) \<Rightarrow> 'b io" where
  "andThen m f w =
     (case m w of
        (Returns x, w') \<Rightarrow> f x w'
      | (Throws e, w') \<Rightarrow> (Throws e, w')
      | (Exits n, w') \<Rightarrow> (Exits n, w'))"

definition existsSync :: "string \<Rightarrow> bool io" where
  "existsSync p w = (Returns (fs w p \<noteq> None), emit (ExistsSync p) w)"

definition readFileSync :: "string \<Rightarrow> string io" where
  "readFileSync p w =
     (case fs w p of
        Some (File content) \<Rightarrow> (Returns content, emit (ReadFileSync p) w)
      | _ \<Rightarrow> (Throws (FsError p), emit (ReadFileSync p) w))"

definition consoleLog :: "string \<Rightarrow> unit io" where
  "consoleLog msg w = (Returns (), emit (ConsoleLog msg) w)"

definition consoleError :: "string \<Rightarrow> unit io" where
  "consoleError msg w = (Returns (), emit (ConsoleError msg) w)"

definition consoleErrorExn :: "exn \<Rightarrow> unit io" where
  "consoleErrorExn e w = (Returns (), emit (ConsoleErrorExn e) w)"

definition processExit :: "nat \<Rightarrow> 'a io" where
  "processExit n w = (Exits n, emit (ProcessExit n) w)"

text \<open>
  What Node.js and the packages give the program: the \<^verbatim>\<open>path\<close> module, the working
  directory, the module loader and the Closure helper that writes the debug loader. They
  are parameters of the model; \<open>require_resolve\<close> and \<open>require_module\<close> return \<open>None\<close> where
  the call throws, and \<open>closureHelper_writeDebugLoader\<close> gives how the promise it returns is
  settled (a rejection with its reason as \<^verbatim>\<open>${reason}\<close> prints it).
\<close>

record node =
  path_sep :: string
  path_join :: "string list \<Rightarrow> string"
  path_isAbsolute :: "string \<Rightarrow> bool"
  path_relative :: "string \<Rightarrow> string \<Rightarrow> string"
  path_dirname :: "string \<Rightarrow> string"
  process_cwd :: string
  require_resolve :: "string \<Rightarrow> string option"
  require_module :: "string \<Rightarrow> string option"
  closureHelper_writeDebugLoader :: "string \<Rightarrow> string \<Rightarrow> string promise"

text \<open>
  Writing and creating directories look at the directories of the world, which are entries
  of their own; the parent of a path is what \<^verbatim>\<open>path.dirname\<close> gives. \<^verbatim>\<open>fs.writeFileSync\<close>
  throws when the parent is not a directory of the world or the path itself is one.
  \<^verbatim>\<open>mkdirp.sync\<close> makes the path and every ancestor of it a directory, and throws when one
  of them is a file; \<open>parentDirs\<close> climbs with \<^verbatim>\<open>path.dirname\<close> until it stands still, in at
  most as many steps as the path has characters.
\<close>

definition writeFileSync :: "node \<Rightarrow> string \<Rightarrow> string \<Rightarrow> unit io" where
  "writeFileSync env p content w =
     (if fs w (path_dirname env p) = Some Directory \<and> fs w p \<noteq> Some Directory
      then (Returns (), (emit (WriteFileSync p content) w)\<lparr>fs := (fs w)(p \<mapsto> File content)\<rparr>)
      else (Throws (FsError p), emit (WriteFileSync p content) w))"

fun parentDirs :: "node \<Rightarrow> nat \<Rightarrow> string \<Rightarrow> string list" where
  "parentDirs env 0 p = []"
| "parentDirs env (Suc n) p =
     (if path_dirname env p = p then []
      else path_dirname env p # parentDirs env n (path_dirname env p))"

definition isFile :: "world \<Rightarrow> string \<Rightarrow> bool" where
  "isFile w p = (case fs w p of Some (File content) \<Rightarrow> True | _ \<Rightarrow> False)"

definition mkdirpSync :: "node \<Rightarrow> string \<Rightarrow> unit io" where
  "mkdirpSync env p w =
     (let dirs = p # parentDirs env (length p) p in
      if list_ex (isFile w) dirs then (Throws (FsError p), emit (MkdirpSync p) w)
      else (Returns (),
            (emit (MkdirpSync p) w)\<lparr>fs := (\<lambda>q. if q \<in> set dirs then Some Directory else fs w q)\<rparr>))"

definition requireModule :: "node \<Rightarrow> string \<Rightarrow> string io" where
  "requireModule env p w =
     (case require_module env p of
        Some m \<Rightarrow> (Returns m, emit (Require p) w)
      | None \<Rightarrow> (Throws (ModuleNotFound p), emit (Require p) w))"

definition requireResolve :: "node \<Rightarrow> string \<Rightarrow> string io" where
  "requireResolve env request w =
     (case require_resolve env request of
        Some p \<Rightarrow> (Returns p, emit (RequireResolve request) w)
      | None \<Rightarrow> (Throws (ModuleNotFound request), emit (RequireResolve request) w))"

definition readFile :: "string \<Rightarrow> string io" where
  "readFile filePath = readFileSync filePath"

section \<open>The helpers and the two builders of buildindex.js\<close>

record templateOptions =
  template_id :: string
  template_file :: string
  template_skip :: bool

record options =
  options_templates :: "templateOptions list option"
  options_basePath :: string
  options_appPath :: string
  options_distPath :: string
  options_appVersion :: string
  options_packageVersion :: string
  options_overrideVersion :: string
  options_debugCss :: string
  options_compiledCss :: string
  options_compiledJs :: string

text \<open>
  \<open>addVendorCss\<close> (lines 63 to 90): the manifest is read and split inside a \<^verbatim>\<open>try\<close>; the
  \<^verbatim>\<open>catch\<close> logs twice and ends the process with status 1.
\<close>

definition addVendorCss :: "string \<Rightarrow> string \<Rightarrow> string io" where
  "addVendorCss template inputFile w =
     (case readFileSync inputFile w of
        (Returns fileContent, w1) \<Rightarrow>
          (let files = splitLines fileContent in
           if 0 < length files then
             andThen
               (consoleLog (''Adding '' @ decimal (length files) @ '' vendor styles from '' @ inputFile))
               (\<lambda>_. ret (stringReplace markerVendorCss
                            (joinWith newline (map createLinkTag files)) template)) w1
           else ret (stringReplace markerVendorCss [] template) w1)
      | (Throws e, w1) \<Rightarrow>
          andThen (consoleError (''ERROR: failed reading vendor styles from '' @ inputFile))
            (\<lambda>_. andThen (consoleErrorExn e) (\<lambda>_. processExit 1)) w1
      | (Exits n, w1) \<Rightarrow> (Exits n, w1))"

text \<open>\<open>getVendorScripts\<close> (lines 97 to 110).\<close>

definition getVendorScripts :: "string \<Rightarrow> string list io" where
  "getVendorScripts inputFile w =
     (case readFileSync inputFile w of
        (Returns fileContent, w1) \<Rightarrow> ret (splitLines fileContent) w1
      | (Throws e, w1) \<Rightarrow>
          andThen (consoleError (''ERROR: failed reading vendor scripts from '' @ inputFile))
            (\<lambda>_. andThen (consoleErrorExn e) (\<lambda>_. processExit 1)) w1
      | (Exits n, w1) \<Rightarrow> (Exits n, w1))"

text \<open>\<open>addVendorScripts\<close> (lines 118 to 135).\<close>

definition addVendorScripts :: "string \<Rightarrow> string \<Rightarrow> string io" where
  "addVendorScripts template inputFile =
     andThen (getVendorScripts inputFile)
       (\<lambda>files.
          if 0 < length files then
            andThen
              (consoleLog (''Adding '' @ decimal (length files) @ '' vendor scripts from '' @ inputFile))
              (\<lambda>_. ret (stringReplace markerVendorJs
                           (joinWith newline (map createScriptTag files)) template))
          else ret (stringReplace markerVendorJs [] template))"

text \<open>The template path of a descriptor (lines 138 to 140 and 188 to 190).\<close>

definition templatePathOf :: "node \<Rightarrow> templateOptions \<Rightarrow> string \<Rightarrow> string" where
  "templatePathOf env templateOptions basePath =
     (let templateFile = jsOr (template_file templateOptions) (template_id templateOptions @ ''-template.html'') in
      if \<not> path_isAbsolute env templateFile then path_join env [basePath, templateFile]
      else templateFile)"

text \<open>The version substitutions of the compiled build (lines 156 to 161).\<close>

definition compiledVersions :: "node \<Rightarrow> options \<Rightarrow> string \<Rightarrow> string" where
  "compiledVersions env options template =
     (let version = jsOr (options_appVersion options) [];
          packageVersion = jsOr (options_overrideVersion options) (jsOr (options_packageVersion options) []);
          versionPath = (if version \<noteq> [] then version @ path_sep env else []);
          template = regexReplaceAll tokenAppVersion version template;
          template = regexReplaceAll tokenPackageVersion packageVersion template
      in regexReplaceAll tokenVersion (slash versionPath) template)"

text \<open>\<open>buildCompiledIndex\<close> (lines 137 to 185).\<close>

definition buildCompiledIndex ::
  "node \<Rightarrow> options \<Rightarrow> templateOptions \<Rightarrow> string \<Rightarrow> string \<Rightarrow> unit io" where
  "buildCompiledIndex env options templateOptions basePath appPath =
     (let id' = template_id templateOptions;
          templatePath = templatePathOf env templateOptions basePath;
          file = htmlFileName templatePath
      in
      if template_skip templateOptions then ret ()
      else
        andThen (existsSync templatePath) (\<lambda>found.
        if \<not> found then throw (Error (''Missing template file '' @ templatePath))
        else
          andThen (consoleLog (''Creating compiled index from '' @ file @ ''...'')) (\<lambda>_.
          andThen (readFile templatePath) (\<lambda>template.
          let template = compiledVersions env options template;
              vendorCssPath = path_join env [appPath, ''.build'', ''resources-css-dist-'' @ id'];
              vendorJsPath = path_join env [appPath, ''.build'', ''resources-js-dist-'' @ id']
          in
          andThen (addVendorCss template vendorCssPath) (\<lambda>template.
          andThen (addVendorScripts template vendorJsPath) (\<lambda>template.
          let template = addAppCss (options_compiledCss options) template;
              template = addAppScript (options_compiledJs options) template;
              indexPath = path_join env [options_distPath options, id' @ ''.html'']
          in
          andThen (consoleLog (''Writing compiled index to '' @ indexPath)) (\<lambda>_.
          andThen (consoleLog []) (\<lambda>_.
          andThen (existsSync (options_distPath options)) (\<lambda>distFound.
          andThen (if \<not> distFound then mkdirpSync env (options_distPath options) else ret ()) (\<lambda>_.
          writeFileSync env indexPath template))))))))))"

text \<open>The version substitutions of the debug build (lines 205 to 210).\<close>

definition debugVersions :: "string \<Rightarrow> string" where
  "debugVersions template =
     (let template = regexReplaceAll tokenVersion [] template;
          template = regexReplaceAll tokenAppVersion ''dev'' template
      in regexReplaceAll tokenPackageVersion ''dev'' template)"

definition getAppLoaderPath :: "node \<Rightarrow> string \<Rightarrow> string" where
  "getAppLoaderPath env basePath = path_join env [basePath, ''.build'', ''app-loader.js'']"

text \<open>The vendor scripts of the debug build (lines 219 to 226).\<close>

definition debugVendorScripts :: "node \<Rightarrow> string \<Rightarrow> string \<Rightarrow> string \<Rightarrow> string io" where
  "debugVendorScripts env appPath id' template =
     (if includesMarker markerVendorJs template then
        (let vendorJsPath = path_join env [appPath, ''.build'', ''resources-js-debug-'' @ id'] in
         andThen (getVendorScripts vendorJsPath) (\<lambda>files.
         let vendorScripts = map createScriptTag files in
         ret (stringReplace markerVendorJs (joinWith newline vendorScripts) template)))
      else ret template)"

text \<open>The four script paths of the debug bootstrap sequence (lines 238 to 243).\<close>

definition appScriptPaths :: "node \<Rightarrow> string \<Rightarrow> string \<Rightarrow> string \<Rightarrow> string list" where
  "appScriptPaths env basePath appPath closureSrcPath =
     [path_relative env basePath (path_join env [appPath, ''.build'', ''gcc-defines-debug.js'']),
      path_relative env basePath (path_join env [closureSrcPath, ''base.js'']),
      path_relative env basePath (path_join env [closureSrcPath, ''deps.js'']),
      path_relative env basePath (getAppLoaderPath env appPath)]"

text \<open>The application scripts of the debug build (lines 228 to 247).\<close>

definition debugAppScripts :: "node \<Rightarrow> string \<Rightarrow> string \<Rightarrow> string \<Rightarrow> string io" where
  "debugAppScripts env basePath appPath template =
     (if includesMarker markerAppJs template then
        (let closureLibPackage = path_join env [''google-closure-library'', ''package.json''] in
         andThen (requireResolve env closureLibPackage) (\<lambda>resolved.
         let closureLibPath = path_dirname env resolved;
             closureSrcPath = path_join env [closureLibPath, ''closure'', ''goog''];
             appScripts = map createScriptTag (appScriptPaths env basePath appPath closureSrcPath)
         in ret (stringReplace markerAppJs (joinWith newline appScripts) template)))
      else ret template)"

text \<open>\<open>buildDebugIndex\<close> (lines 187 to 256).\<close>

definition buildDebugIndex ::
  "node \<Rightarrow> options \<Rightarrow> templateOptions \<Rightarrow> string \<Rightarrow> string \<Rightarrow> unit io" where
  "buildDebugIndex env options templateOptions basePath appPath =
     (let id' = template_id templateOptions;
          templatePath = templatePathOf env templateOptions basePath;
          file = htmlFileName templatePath
      in
      if template_skip templateOptions then ret ()
      else
        andThen (existsSync templatePath) (\<lambda>found.
        if \<not> found then throw (Error (''Missing template file '' @ templatePath))
        else
          andThen (consoleLog (''Creating debug index from '' @ file @ ''...'')) (\<lambda>_.
          andThen (readFile templatePath) (\<lambda>template.
          let template = debugVersions template;
              vendorCssPath = path_join env [appPath, ''.build'', ''resources-css-debug-'' @ id']
          in
          andThen (addVendorCss template vendorCssPath) (\<lambda>template.
          let template = addAppCss (options_debugCss options) template in
          andThen (debugVendorScripts env appPath id' template) (\<lambda>template.
          andThen (debugAppScripts env basePath appPath template) (\<lambda>template.
          let indexPath = path_join env [basePath, id' @ ''.html''] in
          andThen (consoleLog (''Writing debug index to '' @ indexPath)) (\<lambda>_.
          andThen (consoleLog []) (\<lambda>_.
          writeFileSync env indexPath template)))))))))"

text \<open>
  \<open>buildDebugLoader\<close> (lines 263 to 268): the arguments file is loaded with \<^verbatim>\<open>require\<close>,
  which throws when it cannot be loaded, and the helper's promise is returned.
\<close>

definition buildDebugLoader :: "node \<Rightarrow> string \<Rightarrow> string promise io" where
  "buildDebugLoader env basePath =
     (let appLoaderPath = getAppLoaderPath env basePath in
      andThen (requireModule env (path_join env [basePath, ''.build'', ''gcc-args''])) (\<lambda>gccArgs.
      (\<lambda>w. (Returns (closureHelper_writeDebugLoader env gccArgs appLoaderPath),
             emit (WriteDebugLoader gccArgs appLoaderPath) w))))"

section \<open>buildIndex: the orchestration\<close>

text \<open>
  \<open>buildIndex\<close> (lines 285 to 313) maps the template list with Bluebird's \<^verbatim>\<open>Promise.map\<close>.
  The model follows what the library does with this mapper:
  \<^item> the mapper is called on the templates in list order, one call after the other and
    before any \<^verbatim>\<open>then\<close> callback runs (a callback never runs inside the call that registers
    it); for a template with id \<^verbatim>\<open>index\<close> that is not skipped the call runs
    \<open>buildDebugLoader\<close>, and if that throws, the promise of \<open>buildIndex\<close> is rejected with
    what was thrown and the templates that follow are not mapped;
  \<^item> the two callbacks of a template (lines 298 to 306) hang on the promise the mapper
    returns. On \<^verbatim>\<open>Promise.resolve()\<close> they are queued at once, so they run first, in list
    order; on the loader's promise they run when the helper has settled it, which is later,
    and only if it is fulfilled. The promises the two \<^verbatim>\<open>then\<close> calls return are dropped by
    the source: what a callback throws, and the rejection a dropped promise inherits, reach
    no handler (\<open>run_unhandled\<close>);
  \<^item> the promise of \<open>buildIndex\<close> is rejected by the first rejection among the promises the
    mapper returned and fulfilled when all of them are fulfilled; \<^verbatim>\<open>process.exit\<close> ends
    the run where it is called (\<open>run_exit\<close>), and then nothing more happens.
  \<open>run_steps\<close> lists the orchestration's own steps in order, each with the position of its
  template in the list; \<open>run_settled\<close> is how the caller sees the returned promise settled
  (\<open>None\<close>: never).
\<close>

datatype step = TriggerDebugLoader nat | DebugBuild nat | CompiledBuild nat

record run =
  run_world :: world
  run_steps :: "step list"
  run_unhandled :: "exn list"
  run_settled :: "exn promise option"
  run_exit :: "nat option"

datatype pending = Immediate | Loader "string promise"

type_synonym task = "nat \<times> templateOptions \<times> pending"

definition callback :: "step \<Rightarrow> unit io \<Rightarrow> run \<Rightarrow> run" where
  "callback st body r =
     (if run_exit r \<noteq> None then r
      else case body (run_world r) of
        (Returns _, w) \<Rightarrow> r\<lparr>run_world := w, run_steps := run_steps r @ [st]\<rparr>
      | (Throws e, w) \<Rightarrow>
          r\<lparr>run_world := w, run_steps := run_steps r @ [st],
             run_unhandled := run_unhandled r @ [e]\<rparr>
      | (Exits n, w) \<Rightarrow> r\<lparr>run_world := w, run_steps := run_steps r @ [st], run_exit := Some n\<rparr>)"

text \<open>The callbacks of one template (lines 298 to 306).\<close>

definition thenBuilds ::
  "node \<Rightarrow> options \<Rightarrow> bool \<Rightarrow> string \<Rightarrow> string \<Rightarrow> nat \<Rightarrow> templateOptions \<Rightarrow> run \<Rightarrow> run" where
  "thenBuilds env options debugOnly basePath appPath k template r =
     (let r1 = callback (DebugBuild k) (buildDebugIndex env options template basePath appPath) r in
      if \<not> debugOnly
      then callback (CompiledBuild k) (buildCompiledIndex env options template basePath appPath) r1
      else r1)"

text \<open>
  The mapper calls (lines 291 to 296 and 308): the tasks registered, what a call threw if
  one did, and the run so far.
\<close>

fun mapTemplates ::
  "node \<Rightarrow> string \<Rightarrow> nat \<Rightarrow> templateOptions list \<Rightarrow> run \<Rightarrow> task list \<times> exn option \<times> run" where
  "mapTemplates env appPath k [] r = ([], None, r)"
| "mapTemplates env appPath k (template # rest) r =
     (if template_id template = ''index'' \<and> \<not> template_skip template then
        (case buildDebugLoader env appPath (run_world r) of
           (Returns p, w) \<Rightarrow>
             (case mapTemplates env appPath (Suc k) rest
                     (r\<lparr>run_world := w, run_steps := run_steps r @ [TriggerDebugLoader k]\<rparr>) of
                (tasks, thrown, r') \<Rightarrow> ((k, template, Loader p) # tasks, thrown, r'))
         | (Throws e, w) \<Rightarrow>
             ([], Some e, r\<lparr>run_world := w, run_steps := run_steps r @ [TriggerDebugLoader k]\<rparr>)
         | (Exits n, w) \<Rightarrow>
             ([], None, r\<lparr>run_world := w, run_steps := run_steps r @ [TriggerDebugLoader k],
                           run_exit := Some n\<rparr>))
      else
        (case mapTemplates env appPath (Suc k) rest r of
           (tasks, thrown, r') \<Rightarrow> ((k, template, Immediate) # tasks, thrown, r')))"

fun runImmediate ::
  "node \<Rightarrow> options \<Rightarrow> bool \<Rightarrow> string \<Rightarrow> string \<Rightarrow> task list \<Rightarrow> run \<Rightarrow> run" where
  "runImmediate env options debugOnly basePath appPath [] r = r"
| "runImmediate env options debugOnly basePath appPath ((k, template, Immediate) # tasks) r =
     runImmediate env options debugOnly basePath appPath tasks
       (thenBuilds env options debugOnly basePath appPath k template r)"
| "runImmediate env options debugOnly basePath appPath ((k, template, Loader p) # tasks) r =
     runImmediate env options debugOnly basePath appPath tasks r"

definition rejectRun :: "exn \<Rightarrow> run \<Rightarrow> run" where
  "rejectRun e r =
     (if run_exit r \<noteq> None \<or> run_settled r \<noteq> None then r
      else r\<lparr>run_settled := Some (Rejected e)\<rparr>)"

definition fulfilRun :: "run \<Rightarrow> run" where
  "fulfilRun r =
     (if run_exit r \<noteq> None \<or> run_settled r \<noteq> None then r
      else r\<lparr>run_settled := Some Fulfilled\<rparr>)"

text \<open>
  The rejection handler of lines 294 to 296: the reason is wrapped; the promise the mapper
  returned is rejected with the new error, and so are the promises of its \<^verbatim>\<open>then\<close> calls,
  whose callbacks are not called.
\<close>

definition loaderFailed :: "bool \<Rightarrow> string \<Rightarrow> run \<Rightarrow> run" where
  "loaderFailed debugOnly reason r =
     (if run_exit r \<noteq> None then r
      else
        (let e = Error (''Failed writing debug loader: '' @ reason) in
         rejectRun e
           (r\<lparr>run_unhandled := run_unhandled r @ replicate (if debugOnly then 1 else 2) e\<rparr>)))"

fun settleLoaders ::
  "node \<Rightarrow> options \<Rightarrow> bool \<Rightarrow> string \<Rightarrow> string \<Rightarrow> task list \<Rightarrow> run \<Rightarrow> run" where
  "settleLoaders env options debugOnly basePath appPath [] r = r"
| "settleLoaders env options debugOnly basePath appPath ((k, template, Immediate) # tasks) r =
     settleLoaders env options debugOnly basePath appPath tasks r"
| "settleLoaders env options debugOnly basePath appPath ((k, template, Loader Fulfilled) # tasks) r =
     settleLoaders env options debugOnly basePath appPath tasks
       (thenBuilds env options debugOnly basePath appPath k template r)"
| "settleLoaders env options debugOnly basePath appPath ((k, template, Loader (Rejected reason)) # tasks) r =
     settleLoaders env options debugOnly basePath appPath tasks (loaderFailed debugOnly reason r)"

definition startRun :: "world \<Rightarrow> run" where
  "startRun w =
     \<lparr>run_world = w, run_steps = [], run_unhandled = [], run_settled = None, run_exit = None\<rparr>"

definition buildIndex :: "node \<Rightarrow> options option \<Rightarrow> bool \<Rightarrow> world \<Rightarrow> run" where
  "buildIndex env options debugOnly w =
     (case options of
        None \<Rightarrow> fulfilRun (startRun w)
      | Some opts \<Rightarrow>
          (case options_templates opts of
             None \<Rightarrow> fulfilRun (startRun w)
           | Some templates \<Rightarrow>
               (let basePath = jsOr (options_basePath opts) (process_cwd env);
                    appPath = jsOr (options_appPath opts) basePath
                in case mapTemplates env appPath 0 templates (startRun w) of
                  (tasks, thrown, r1) \<Rightarrow>
                    (let r2 = runImmediate env opts debugOnly basePath appPath tasks r1;
                         r3 = (case thrown of Some e \<Rightarrow> rejectRun e r2 | None \<Rightarrow> r2);
                         r4 = settleLoaders env opts debugOnly basePath appPath tasks r3
                     in fulfilRun r4))))"

section \<open>A small environment for concrete runs\<close>

text \<open>
  A POSIX-like instance of the environment, for evaluating the model on concrete inputs:
  paths are joined with \<^verbatim>\<open>/\<close> (empty parts dropped), absolute paths start with \<^verbatim>\<open>/\<close>, and
  a relative path is the target with the base prefix removed; the Closure library resolves
  under \<^verbatim>\<open>node_modules\<close> and the arguments file loads. It does not normalise paths;
  the examples use paths that need no normalisation.
\<close>

definition posixJoin :: "string list \<Rightarrow> string" where
  "posixJoin parts = joinWith ''/'' (filter (\<lambda>p. p \<noteq> []) parts)"

definition posixRelative :: "string \<Rightarrow> string \<Rightarrow> string" where
  "posixRelative fromPath toPath =
     (if fromPath \<noteq> [] \<and> prefix (fromPath @ ''/'') toPath then drop (length fromPath + 1) toPath
      else toPath)"

definition posixDirname :: "string \<Rightarrow> string" where
  "posixDirname p = rev (drop 1 (dropWhile (\<lambda>c. c \<noteq> CHR ''/'') (rev p)))"

definition posixNode :: "string promise \<Rightarrow> node" where
  "posixNode loader =
     \<lparr>path_sep = ''/'',
      path_join = posixJoin,
      path_isAbsolute = (\<lambda>p. prefix ''/'' p),
      path_relative = posixRelative,
      path_dirname = posixDirname,
      process_cwd = ''/app'',
      require_resolve = (\<lambda>request. Some ''node_modules/google-closure-library/package.json''),
      require_module = (\<lambda>p. Some ''gcc-args''),
      closureHelper_writeDebugLoader = (\<lambda>gccArgs appLoaderPath. loader)\<rparr>"

fun posixParents :: "string \<Rightarrow> string \<Rightarrow> string list" where
  "posixParents scanned [] = []"
| "posixParents scanned (c # cs) =
     (if c = CHR ''/'' \<and> scanned \<noteq> [] then scanned # posixParents (scanned @ [c]) cs
      else posixParents (scanned @ [c]) cs)"

definition worldOf :: "(string \<times> string) list \<Rightarrow> world" where
  \<comment> \<open>a world whose files are those of the list, in their directories, with nothing done yet\<close>
  "worldOf files =
     \<lparr>fs = (\<lambda>p. case map_of files p of
                  Some content \<Rightarrow> Some (File content)
                | None \<Rightarrow>
                    if p \<in> set (concat (map (\<lambda>(name, content). posixParents [] name) files))
                    then Some Directory else None),
      effects = []\<rparr>"

section \<open>Replacing every occurrence, in the spec's words\<close>

text \<open>
  The spec speaks of replacing every occurrence of a token. \<open>tokenSplit\<close> cuts a text at
  the occurrences of the token, found from left to right, each search starting after the
  previous occurrence (as \<^verbatim>\<open>str.split(token)\<close> does), and \<open>replaceEvery\<close> puts the
  replacement between the pieces. The lemmas below show that the pieces joined by the token
  give the text back and that no piece holds the token.
\<close>

function tokenSplit :: "string \<Rightarrow> string \<Rightarrow> string list" where
  "tokenSplit tok str =
     (if tok = [] then [str]
      else case findFirst tok str of
        None \<Rightarrow> [str]
      | Some (front, rear) \<Rightarrow> front # tokenSplit tok rear)"
  by pat_completeness auto
termination
proof (relation "measure (\<lambda>(tok, str). length str)")
  show "wf (measure (\<lambda>(tok, str). length str))" by simp
next
  fix tok str front rear :: string and x2 :: "string \<times> string"
  assume "tok \<noteq> []" and "findFirst tok str = Some x2" and "(front, rear) = x2"
  then have "str = front @ tok @ rear" by (metis findFirst_Some)
  with \<open>tok \<noteq> []\<close> show "((tok, rear), (tok, str)) \<in> measure (\<lambda>(tok, str). length str)"
    by (cases tok) auto
qed

definition replaceEvery :: "string \<Rightarrow> string \<Rightarrow> string \<Rightarrow> string" where
  "replaceEvery tok rep str = joinWith rep (tokenSplit tok str)"

section \<open>Notions used to state the claims\<close>

text \<open>
  A path that \<open>readFileSync\<close> cannot read (nothing there, or a directory), and the world a
  failed manifest read leaves: the read, the two error lines of the \<^verbatim>\<open>catch\<close> block, and the
  exit with status 1.
\<close>

definition unreadable :: "world \<Rightarrow> string \<Rightarrow> bool" where
  "unreadable w p = (case fs w p of Some (File content) \<Rightarrow> False | _ \<Rightarrow> True)"

definition manifestFailure :: "string \<Rightarrow> string \<Rightarrow> world \<Rightarrow> world" where
  "manifestFailure kind inputFile w =
     w\<lparr>effects := effects w @
        [ReadFileSync inputFile,
         ConsoleError (''ERROR: failed reading vendor '' @ kind @ '' from '' @ inputFile),
         ConsoleErrorExn (FsError inputFile),
         ProcessExit 1]\<rparr>"

text \<open>
  A template that triggers the loader (line 293): its id is the reserved name and it is not
  skipped. \<open>reservedFrom k ts\<close> lists the positions of such templates in \<open>ts\<close>, counted from
  \<open>k\<close>; \<open>loaderTriggers\<close> are the loader generations a run started.
\<close>

definition reserved :: "templateOptions \<Rightarrow> bool" where
  "reserved t = (template_id t = ''index'' \<and> \<not> template_skip t)"

fun reservedFrom :: "nat \<Rightarrow> templateOptions list \<Rightarrow> nat list" where
  "reservedFrom k [] = []"
| "reservedFrom k (t # ts) =
     (if reserved t then k # reservedFrom (Suc k) ts else reservedFrom (Suc k) ts)"

fun isTrigger :: "step \<Rightarrow> bool" where
  "isTrigger (TriggerDebugLoader k) = True"
| "isTrigger (DebugBuild k) = False"
| "isTrigger (CompiledBuild k) = False"

definition loaderTriggers :: "run \<Rightarrow> step list" where
  "loaderTriggers r = filter isTrigger (run_steps r)"

text \<open>
  The tasks the mapper registers when every loader call returns the promise \<open>p\<close>.
\<close>

fun tasksFor :: "string promise \<Rightarrow> nat \<Rightarrow> templateOptions list \<Rightarrow> task list" where
  "tasksFor p k [] = []"
| "tasksFor p k (t # ts) =
     (k, t, if reserved t then Loader p else Immediate) # tasksFor p (Suc k) ts"

section \<open>Concrete inputs\<close>

text \<open>
  A template with the four markers and two of the version tokens, the options of the
  repository's test, and a world that holds the template \<^verbatim>\<open>index1-template.html\<close> with its
  four vendor manifests.
\<close>

definition sampleTemplate :: string where
  "sampleTemplate =
     ''<title>T</title>'' @ newline @ ''<!--VENDOR_CSS-->'' @ newline @ ''<!--APP_CSS-->'' @ newline
       @ ''<div v=@appVersion@ p=@version@>'' @ newline @ ''<!--VENDOR_JS-->'' @ newline
       @ ''<!--APP_JS-->''"

definition sampleOptions :: "templateOptions list \<Rightarrow> options" where
  "sampleOptions ts =
     \<lparr>options_templates = Some ts,
      options_basePath = ''/app'', options_appPath = [], options_distPath = ''dist'',
      options_appVersion = ''v2'', options_packageVersion = [], options_overrideVersion = [],
      options_debugCss = ''styles/debug.css'', options_compiledCss = ''styles/test.min.css'',
      options_compiledJs = ''test.min.js''\<rparr>"

definition sampleWorld :: world where
  "sampleWorld =
     worldOf
       [(''/app/index1-template.html'', sampleTemplate),
        (''/app/.build/resources-css-debug-index1'', ''a.css'' @ newline @ ''b.css''),
        (''/app/.build/resources-js-debug-index1'', ''a.js'' @ newline @ ''b.js''),
        (''/app/.build/resources-css-dist-index1'', ''a.min.css''),
        (''/app/.build/resources-js-dist-index1'', ''a.min.js'')]"

definition templateOf :: "string \<Rightarrow> bool \<Rightarrow> templateOptions" where
  "templateOf name skipped = \<lparr>template_id = name, template_file = [], template_skip = skipped\<rparr>"

text \<open>
  A world in which the template of \<^verbatim>\<open>index1\<close> has no vendor manifest at all, while the
  template of \<^verbatim>\<open>index2\<close> has its four manifests.
\<close>

definition brokenWorld :: world where
  "brokenWorld =
     worldOf
       [(''/app/index1-template.html'', ''<!--VENDOR_CSS-->''),
        (''/app/index2-template.html'', ''<!--VENDOR_CSS-->''),
        (''/app/.build/resources-css-debug-index2'', ''a.css''),
        (''/app/.build/resources-js-debug-index2'', ''a.js''),
        (''/app/.build/resources-css-dist-index2'', ''a.min.css''),
        (''/app/.build/resources-js-dist-index2'', ''a.min.js'')]"

text \<open>
  The environment of a project that has not been compiled yet: \<^verbatim>\<open>require\<close> finds no
  arguments file.
\<close>

definition bareNode :: node where
  "bareNode = (posixNode Fulfilled)\<lparr>require_module := (\<lambda>p. None)\<rparr>"

text \<open>
  A world for the script steps of the debug build: the template holds the vendor script
  marker, and the application script marker only once the version token inside it has been
  removed; the CSS manifest is empty and the script manifest has two lines.
\<close>

definition scriptsWorld :: world where
  "scriptsWorld =
     worldOf
       [(''/app/p-template.html'', ''x<!--VENDOR_JS-->y<!--APP_@version@JS-->z''),
        (''/app/.build/resources-css-debug-p'', []),
        (''/app/.build/resources-js-debug-p'', ''a.js'' @ newline @ ''b.js'')]"

section \<open>Properties of the string operations\<close>

lemma findFirst_None_iff: "findFirst pat str = None \<longleftrightarrow> \<not> sublist pat str"
  by (induction str) (auto simp: sublist_Cons_right)

lemma not_sublist_butlast: "pat \<noteq> [] \<Longrightarrow> \<not> sublist pat (butlast pat)"
proof
  assume "pat \<noteq> []" and sub: "sublist pat (butlast pat)"
  from sub have "length pat \<le> length (butlast pat)" by (rule sublist_length_le)
  moreover have "length (butlast pat) = length pat - 1" by simp
  moreover from \<open>pat \<noteq> []\<close> have "1 \<le> length pat" by (cases pat) simp_all
  ultimately show False by linarith
qed

lemma prefix_shorter:
  assumes "prefix pat (xs @ ys)" and "length pat \<le> length xs"
  shows "prefix pat xs"
proof -
  from assms(1) have "prefix pat xs \<or> (\<exists>us. pat = xs @ us \<and> prefix us ys)"
    by (simp add: prefix_append)
  then show ?thesis
  proof
    assume "prefix pat xs" then show ?thesis .
  next
    assume "\<exists>us. pat = xs @ us \<and> prefix us ys"
    then obtain us where "pat = xs @ us" by blast
    with assms(2) have "us = []" by simp
    with \<open>pat = xs @ us\<close> show ?thesis by simp
  qed
qed

lemma findFirst_first:
  "findFirst pat str = Some (front, rear) \<Longrightarrow> pat \<noteq> [] \<Longrightarrow> \<not> sublist pat (front @ butlast pat)"
proof (induction str arbitrary: front)
  case Nil
  then show ?case by simp
next
  case (Cons c cs)
  show ?case
  proof (cases "prefix pat (c # cs)")
    case True
    with Cons.prems have "front = []" by auto
    then show ?thesis using Cons.prems(2) by (simp add: not_sublist_butlast)
  next
    case False
    with Cons.prems obtain b where b: "findFirst pat cs = Some (b, rear)" and f: "front = c # b"
      by (auto split: prod.splits)
    have str: "c # cs = front @ pat @ rear" using Cons.prems(1) by (rule findFirst_Some)
    have "\<not> prefix pat (c # b @ butlast pat)"
    proof
      assume "prefix pat (c # b @ butlast pat)"
      then have "prefix pat ((c # b @ butlast pat) @ (last pat # rear))" by (rule prefix_prefix)
      moreover have "(c # b @ butlast pat) @ (last pat # rear) = c # cs"
        using str f Cons.prems(2) by simp
      ultimately show False using False by simp
    qed
    with Cons.IH[OF b Cons.prems(2)] f show ?thesis by (simp add: sublist_Cons_right)
  qed
qed

lemma findFirst_append:
  "pat \<noteq> [] \<Longrightarrow> \<not> sublist pat (front @ butlast pat) \<Longrightarrow> findFirst pat (front @ pat @ rear) = Some (front, rear)"
proof (induction front)
  case Nil
  then show ?case by (cases pat) auto
next
  case (Cons c front)
  from Cons.prems(2) have np: "\<not> prefix pat (c # front @ butlast pat)" and ns: "\<not> sublist pat (front @ butlast pat)"
    by (auto simp: sublist_Cons_right)
  have "\<not> prefix pat (c # front @ pat @ rear)"
  proof
    assume a: "prefix pat (c # front @ pat @ rear)"
    have "c # front @ pat @ rear = (c # front @ butlast pat) @ (last pat # rear)"
      using Cons.prems(1) by simp
    with a have "prefix pat ((c # front @ butlast pat) @ (last pat # rear))" by simp
    then have "prefix pat (c # front @ butlast pat)"
      by (rule prefix_shorter) simp
    with np show False ..
  qed
  with Cons.IH[OF Cons.prems(1) ns] show ?case by simp
qed

lemma getSubstitution_plain: "CHR ''$'' \<notin> set rep \<Longrightarrow> getSubstitution m a b rep = rep"
  by (induction m a b rep rule: getSubstitution.induct) auto

lemma stringReplace_first:
  "pat \<noteq> [] \<Longrightarrow> \<not> sublist pat (front @ butlast pat) \<Longrightarrow>
   stringReplace pat rep (front @ pat @ rear) = front @ getSubstitution pat front rear rep @ rear"
  by (simp add: stringReplace_def findFirst_append)

lemma stringReplace_absent: "\<not> sublist pat str \<Longrightarrow> stringReplace pat rep str = str"
  using findFirst_None_iff[of pat str] by (simp add: stringReplace_def)

declare tokenSplit.simps [simp del]
declare replaceAllFrom.simps [simp del]

lemma tokenSplit_nonempty: "tokenSplit tok str \<noteq> []"
  by (subst tokenSplit.simps) (auto split: option.splits)

lemma joinWith_Cons: "xs \<noteq> [] \<Longrightarrow> joinWith sep (x # xs) = x @ sep @ joinWith sep xs"
  by (cases xs) auto

lemma replaceAllFrom_plain:
  "CHR ''$'' \<notin> set rep \<Longrightarrow> tok \<noteq> [] \<Longrightarrow> replaceAllFrom tok rep scanned str = joinWith rep (tokenSplit tok str)"
proof (induction tok rep scanned str rule: replaceAllFrom.induct)
  case (1 pat rep scanned rest)
  show ?case
  proof (cases "findFirst pat rest")
    case None
    then show ?thesis using 1(3)
      by (subst replaceAllFrom.simps, subst tokenSplit.simps) simp
  next
    case (Some fr)
    obtain front rear where fr: "fr = (front, rear)" by (cases fr)
    have ih: "replaceAllFrom pat rep (scanned @ front @ pat) rear = joinWith rep (tokenSplit pat rear)"
      using 1(1)[OF 1(3) Some fr[symmetric] 1(2) 1(3)] .
    show ?thesis
      using Some fr 1(2) 1(3) ih
      by (subst replaceAllFrom.simps, subst tokenSplit.simps)
         (simp add: getSubstitution_plain joinWith_Cons tokenSplit_nonempty)
  qed
qed


lemma sublist_front: "sublist xs front \<Longrightarrow> sublist xs (front @ rest)"
  by (simp add: sublist_append)

lemma sublist_rear: "sublist xs rear \<Longrightarrow> sublist xs (front @ rear)"
  by (simp add: sublist_append)

lemma tokenSplit_free:
  "tok \<noteq> [] \<Longrightarrow> piece \<in> set (tokenSplit tok str) \<Longrightarrow> \<not> sublist tok piece"
proof (induction tok str rule: tokenSplit.induct)
  case (1 tok str)
  show ?case
  proof (cases "findFirst tok str")
    case None
    with 1(2,3) have "piece = str" by (subst (asm) tokenSplit.simps) simp
    with None show ?thesis by (simp add: findFirst_None_iff)
  next
    case (Some fr)
    obtain front rear where fr: "fr = (front, rear)" by (cases fr)
    from 1(3) Some fr 1(2) have "piece = front \<or> piece \<in> set (tokenSplit tok rear)"
      by (subst (asm) tokenSplit.simps) simp
    then show ?thesis
    proof
      assume "piece = front"
      moreover have "\<not> sublist tok (front @ butlast tok)"
        using Some fr 1(2) by (simp add: findFirst_first)
      ultimately show ?thesis using sublist_front by blast
    next
      assume "piece \<in> set (tokenSplit tok rear)"
      then show ?thesis using 1(1)[OF 1(2) Some fr[symmetric] 1(2)] by simp
    qed
  qed
qed

lemma tokenSplit_sublist:
  "piece \<in> set (tokenSplit tok str) \<Longrightarrow> sublist piece str"
proof (induction tok str rule: tokenSplit.induct)
  case (1 tok str)
  show ?case
  proof (cases "tok = []")
    case True
    with 1(2) show ?thesis by (subst (asm) tokenSplit.simps) simp
  next
    case False
    show ?thesis
    proof (cases "findFirst tok str")
      case None
      with 1(2) False show ?thesis by (subst (asm) tokenSplit.simps) simp
    next
      case (Some fr)
      obtain front rear where fr: "fr = (front, rear)" by (cases fr)
      have str: "str = front @ tok @ rear" using Some fr by (simp add: findFirst_Some)
      from 1(2) Some fr False have "piece = front \<or> piece \<in> set (tokenSplit tok rear)"
        by (subst (asm) tokenSplit.simps) simp
      then show ?thesis
      proof
        assume "piece = front"
        then show ?thesis using str sublist_appendI[of front "[]" "tok @ rear"] by simp
      next
        assume "piece \<in> set (tokenSplit tok rear)"
        then have "sublist piece rear" using 1(1)[OF False Some fr[symmetric]] by simp
        then show ?thesis using str by (simp add: sublist_rear)
      qed
    qed
  qed
qed

lemma prefix_hd: "q2 \<noteq> [] \<Longrightarrow> rep \<noteq> [] \<Longrightarrow> prefix q2 (rep @ rest) \<Longrightarrow> hd q2 = hd rep"
  by (cases q2; cases rep) simp_all

lemma suffix_last: "q1 \<noteq> [] \<Longrightarrow> suffix q1 rep \<Longrightarrow> last q1 = last rep"
  by (auto simp: suffix_def)

lemma not_sublist_glue:
  assumes rep: "rep \<noteq> []" and h: "hd rep \<notin> set q"
    and x: "\<not> sublist q x" and r: "\<not> sublist q (rep @ rest)"
  shows "\<not> sublist q (x @ rep @ rest)"
proof
  assume "sublist q (x @ rep @ rest)"
  then have "sublist q x \<or> sublist q (rep @ rest)
      \<or> (\<exists>q1 q2. q = q1 @ q2 \<and> suffix q1 x \<and> prefix q2 (rep @ rest))"
    by (rule iffD1[OF sublist_append])
  then consider "sublist q x" | "sublist q (rep @ rest)"
    | q1 q2 where "q = q1 @ q2" "suffix q1 x" "prefix q2 (rep @ rest)"
    by blast
  then show False
  proof cases
    case 1 with x show False ..
  next
    case 2 with r show False ..
  next
    case 3
    show False
    proof (cases "q2 = []")
      case True
      with 3 have "suffix q x" by simp
      then have "sublist q x" by (rule suffix_imp_sublist)
      with x show False ..
    next
      case False
      from False rep 3(3) have "hd q2 = hd rep" by (rule prefix_hd)
      with False 3(1) have "hd rep \<in> set q" by (cases q2) auto
      with h show False ..
    qed
  qed
qed

lemma not_sublist_rep:
  assumes l: "last rep \<notin> set q" and r: "\<not> sublist q rep" and j: "\<not> sublist q rest"
  shows "\<not> sublist q (rep @ rest)"
proof
  assume "sublist q (rep @ rest)"
  then have "sublist q rep \<or> sublist q rest
      \<or> (\<exists>q1 q2. q = q1 @ q2 \<and> suffix q1 rep \<and> prefix q2 rest)"
    by (rule iffD1[OF sublist_append])
  then consider "sublist q rep" | "sublist q rest"
    | q1 q2 where "q = q1 @ q2" "suffix q1 rep" "prefix q2 rest"
    by blast
  then show False
  proof cases
    case 1 with r show False ..
  next
    case 2 with j show False ..
  next
    case 3
    show False
    proof (cases "q1 = []")
      case True
      with 3 have "prefix q rest" by simp
      then have "sublist q rest" by (rule prefix_imp_sublist)
      with j show False ..
    next
      case False
      from False 3(2) have "last q1 = last rep" by (rule suffix_last)
      moreover from False have "last q1 \<in> set q1" by simp
      ultimately have "last rep \<in> set q" using 3(1) by simp
      with l show False ..
    qed
  qed
qed

lemma joinWith_free:
  assumes "rep \<noteq> []" and "hd rep \<notin> set q" and "last rep \<notin> set q" and "\<not> sublist q rep"
    and "\<forall>p \<in> set pieces. \<not> sublist q p"
  shows "\<not> sublist q (joinWith rep pieces)"
  using assms
proof (induction rep pieces rule: joinWith.induct)
  case (1 sep)
  then have "q \<noteq> []" by auto
  then show ?case by simp
next
  case (2 sep x)
  then show ?case by simp
next
  case (3 sep x y ys)
  then have "\<not> sublist q (joinWith sep (y # ys))" by simp
  with 3(4,5) have "\<not> sublist q (sep @ joinWith sep (y # ys))" by (rule not_sublist_rep)
  moreover from 3(6) have "\<not> sublist q x" by simp
  ultimately have "\<not> sublist q (x @ sep @ joinWith sep (y # ys))"
    using 3(2,3) by (simp add: not_sublist_glue)
  then show ?case by simp
qed

lemma replaceEvery_free:
  assumes "tok \<noteq> []" and "rep \<noteq> []" and "hd rep \<notin> set tok" and "last rep \<notin> set tok" and "\<not> sublist tok rep"
  shows "\<not> sublist tok (replaceEvery tok rep str)"
  unfolding replaceEvery_def using assms
  by (intro joinWith_free) (auto dest: tokenSplit_free)

lemma replaceEvery_keeps_free:
  assumes "rep \<noteq> []" and "hd rep \<notin> set q" and "last rep \<notin> set q" and "\<not> sublist q rep"
    and "\<not> sublist q str"
  shows "\<not> sublist q (replaceEvery tok rep str)"
  unfolding replaceEvery_def
proof (rule joinWith_free[OF assms(1-4)], rule ballI)
  fix p assume "p \<in> set (tokenSplit tok str)"
  then have "sublist p str" by (rule tokenSplit_sublist)
  show "\<not> sublist q p"
  proof
    assume "sublist q p"
    from this \<open>sublist p str\<close> have "sublist q str" by (rule sublist_order.order_trans)
    with assms(5) show False ..
  qed
qed

lemma regexReplaceAll_plain:
  "CHR ''$'' \<notin> set rep \<Longrightarrow> tok \<noteq> [] \<Longrightarrow> regexReplaceAll tok rep str = replaceEvery tok rep str"
  by (simp add: regexReplaceAll_def replaceEvery_def replaceAllFrom_plain)

lemma debugVersions_refines:
  "debugVersions template =
     replaceEvery tokenPackageVersion ''dev''
       (replaceEvery tokenAppVersion ''dev'' (replaceEvery tokenVersion [] template))"
  by (simp add: debugVersions_def regexReplaceAll_plain tokenVersion_def tokenAppVersion_def tokenPackageVersion_def)

lemma debugVersions_free:
  "\<not> sublist tokenAppVersion (debugVersions template) \<and> \<not> sublist tokenPackageVersion (debugVersions template)"
proof
  let ?s1 = "replaceEvery tokenVersion [] template"
  let ?s2 = "replaceEvery tokenAppVersion ''dev'' ?s1"
  have a: "\<not> sublist tokenAppVersion ?s2"
    by (rule replaceEvery_free) (simp_all add: tokenAppVersion_def sublist_code(3))
  show "\<not> sublist tokenAppVersion (debugVersions template)"
    unfolding debugVersions_refines
    by (rule replaceEvery_keeps_free[OF _ _ _ _ a]) (simp_all add: tokenAppVersion_def sublist_code(3))
  show "\<not> sublist tokenPackageVersion (debugVersions template)"
    unfolding debugVersions_refines
    by (rule replaceEvery_free) (simp_all add: tokenPackageVersion_def sublist_code(3))
qed

section \<open>Properties of the helpers\<close>

lemma splitLines_nonempty: "splitLines str \<noteq> []"
  by (induction str) auto

lemma fs_emit [simp]: "fs (emit e w) = fs w"
  by (simp add: emit_def)

lemma effects_emit [simp]: "effects (emit e w) = effects w @ [e]"
  by (simp add: emit_def)

lemma readFileSync_file:
  "fs w p = Some (File content) \<Longrightarrow> readFileSync p w = (Returns content, emit (ReadFileSync p) w)"
  by (simp add: readFileSync_def)

lemma readFileSync_unreadable:
  "unreadable w p \<Longrightarrow> readFileSync p w = (Throws (FsError p), emit (ReadFileSync p) w)"
  by (auto simp: readFileSync_def unreadable_def split: option.splits fsnode.splits)

lemma addVendorCss_readable:
  assumes "fs w inputFile = Some (File content)"
  shows "addVendorCss template inputFile w =
          (Returns (stringReplace markerVendorCss
                      (joinWith newline (map createLinkTag (splitLines content))) template),
           emit (ConsoleLog (''Adding '' @ decimal (length (splitLines content))
                               @ '' vendor styles from '' @ inputFile))
             (emit (ReadFileSync inputFile) w))"
  using assms splitLines_nonempty[of content]
  by (simp add: addVendorCss_def readFileSync_file andThen_def consoleLog_def ret_def Let_def
           del: decimal.simps)

lemma addVendorCss_unreadable:
  assumes "unreadable w inputFile"
  shows "addVendorCss template inputFile w = (Exits 1, manifestFailure ''styles'' inputFile w)"
  using assms
  by (simp add: addVendorCss_def readFileSync_unreadable andThen_def consoleError_def
        consoleErrorExn_def processExit_def manifestFailure_def emit_def)

lemma getVendorScripts_readable:
  assumes "fs w inputFile = Some (File content)"
  shows "getVendorScripts inputFile w = (Returns (splitLines content), emit (ReadFileSync inputFile) w)"
  using assms by (simp add: getVendorScripts_def readFileSync_file ret_def)

lemma getVendorScripts_unreadable:
  assumes "unreadable w inputFile"
  shows "getVendorScripts inputFile w = (Exits 1, manifestFailure ''scripts'' inputFile w)"
  using assms
  by (simp add: getVendorScripts_def readFileSync_unreadable andThen_def consoleError_def
        consoleErrorExn_def processExit_def manifestFailure_def emit_def)

lemma addVendorScripts_readable:
  assumes "fs w inputFile = Some (File content)"
  shows "addVendorScripts template inputFile w =
          (Returns (stringReplace markerVendorJs
                      (joinWith newline (map createScriptTag (splitLines content))) template),
           emit (ConsoleLog (''Adding '' @ decimal (length (splitLines content))
                               @ '' vendor scripts from '' @ inputFile))
             (emit (ReadFileSync inputFile) w))"
  using assms splitLines_nonempty[of content]
  by (simp add: addVendorScripts_def getVendorScripts_readable andThen_def consoleLog_def ret_def
           del: decimal.simps)

lemma addVendorScripts_unreadable:
  assumes "unreadable w inputFile"
  shows "addVendorScripts template inputFile w = (Exits 1, manifestFailure ''scripts'' inputFile w)"
  using assms by (simp add: addVendorScripts_def getVendorScripts_unreadable andThen_def)

lemma tags_of_lines:
  "filter (\<lambda>t. t \<noteq> []) (map createLinkTag ls) = map createLinkTag (filter (\<lambda>l. l \<noteq> []) ls)
   \<and> filter (\<lambda>t. t \<noteq> []) (map createScriptTag ls) = map createScriptTag (filter (\<lambda>l. l \<noteq> []) ls)"
  by (induction ls) (auto simp: createLinkTag_def createScriptTag_def)

lemma joinWith_empties: "(\<forall>x \<in> set xs. x = []) \<Longrightarrow> joinWith [] xs = []"
  by (induction "[]::string" xs rule: joinWith.induct) auto

lemma set_slash: "set (slash p) \<subseteq> insert (CHR ''/'') (set p)"
  by (auto simp: slash_def)

lemma set_splitLines: "l \<in> set (splitLines str) \<Longrightarrow> set l \<subseteq> set str"
proof (induction str arbitrary: l)
  case Nil
  then show ?case by simp
next
  case (Cons c cs)
  have ne: "splitLines cs \<noteq> []" by (rule splitLines_nonempty)
  show ?case
  proof (cases "c = CHR 0x0A")
    case True
    with Cons show ?thesis by auto
  next
    case False
    with Cons.prems have "l = c # hd (splitLines cs) \<or> l \<in> set (tl (splitLines cs))" by simp
    then show ?thesis
    proof
      assume "l = c # hd (splitLines cs)"
      moreover have "hd (splitLines cs) \<in> set (splitLines cs)" using ne by simp
      ultimately show ?thesis using Cons.IH by auto
    next
      assume "l \<in> set (tl (splitLines cs))"
      then have "l \<in> set (splitLines cs)" using ne by (metis list.set_sel(2))
      then show ?thesis using Cons.IH by auto
    qed
  qed
qed

lemma set_joinWith: "set (joinWith sep xs) \<subseteq> set sep \<union> (\<Union>x \<in> set xs. set x)"
  by (induction sep xs rule: joinWith.induct) auto

lemma dollar_free_link: "CHR ''$'' \<notin> set p \<Longrightarrow> CHR ''$'' \<notin> set (createLinkTag p)"
  using set_slash[of p] by (auto simp: createLinkTag_def)

lemma dollar_free_script: "CHR ''$'' \<notin> set p \<Longrightarrow> CHR ''$'' \<notin> set (createScriptTag p)"
  using set_slash[of p] by (auto simp: createScriptTag_def)

lemma dollar_free_links:
  assumes "CHR ''$'' \<notin> set content"
  shows "CHR ''$'' \<notin> set (joinWith newline (map createLinkTag (splitLines content)))"
proof
  assume "CHR ''$'' \<in> set (joinWith newline (map createLinkTag (splitLines content)))"
  with set_joinWith[of newline "map createLinkTag (splitLines content)"]
  obtain l where "l \<in> set (splitLines content)" and "CHR ''$'' \<in> set (createLinkTag l)"
    by (auto simp: newline_def)
  with assms set_splitLines[of l content] dollar_free_link[of l] show False by auto
qed

lemma dollar_free_scripts:
  assumes "CHR ''$'' \<notin> set content"
  shows "CHR ''$'' \<notin> set (joinWith newline (map createScriptTag (splitLines content)))"
proof
  assume "CHR ''$'' \<in> set (joinWith newline (map createScriptTag (splitLines content)))"
  with set_joinWith[of newline "map createScriptTag (splitLines content)"]
  obtain l where "l \<in> set (splitLines content)" and "CHR ''$'' \<in> set (createScriptTag l)"
    by (auto simp: newline_def)
  with assms set_splitLines[of l content] dollar_free_script[of l] show False by auto
qed

lemma markers_nonempty:
  "markerVendorCss \<noteq> []" "markerVendorJs \<noteq> []" "markerAppCss \<noteq> []" "markerAppJs \<noteq> []"
  by (simp_all add: markerVendorCss_def markerVendorJs_def markerAppCss_def markerAppJs_def)



lemma slash_separator:
  assumes "CHR 0x5C \<notin> set p" and "\<not> list_ex (\<lambda>c. 128 < (of_char c :: nat)) p"
  shows "slash (p @ ''/'') = p @ ''/'' \<and> slash (p @ [CHR 0x5C]) = p @ ''/''"
proof -
  have m: "map (\<lambda>c. if c = CHR 0x5C then CHR ''/'' else c) p = p"
    using assms(1) by (induction p) auto
  have n: "\<not> prefix [CHR 0x5C, CHR 0x5C, CHR ''?'', CHR 0x5C] (p @ s)" if "length s = 1" for s
  proof (cases p)
    case Nil
    with that show ?thesis by (cases s) auto
  next
    case (Cons a q)
    with assms(1) show ?thesis by auto
  qed
  show ?thesis using assms(2) m n[of "''/''"] n[of "[CHR 0x5C]"]
    by (simp add: slash_def)
qed








section \<open>Evaluating the model on concrete inputs\<close>

lemmas eval_strings =
  newline_def jsOr_def includesMarker_def stringReplace_def regexReplaceAll_def
  replaceAllFrom.simps slash_def createScriptTag_def createLinkTag_def
  markerVendorCss_def markerVendorJs_def markerAppCss_def markerAppJs_def
  tokenVersion_def tokenAppVersion_def tokenPackageVersion_def addAppCss_def addAppScript_def
  htmlFileName_def digitChar_def

lemmas eval_io =
  emit_def ret_def throw_def andThen_def existsSync_def readFileSync_def writeFileSync_def
  mkdirpSync_def isFile_def consoleLog_def consoleError_def consoleErrorExn_def processExit_def
  requireModule_def requireResolve_def readFile_def

lemmas eval_build =
  addVendorCss_def getVendorScripts_def addVendorScripts_def templatePathOf_def
  compiledVersions_def buildCompiledIndex_def debugVersions_def getAppLoaderPath_def
  debugVendorScripts_def appScriptPaths_def debugAppScripts_def buildDebugIndex_def
  buildDebugLoader_def

lemmas eval_run =
  callback_def thenBuilds_def rejectRun_def fulfilRun_def loaderFailed_def startRun_def
  buildIndex_def

lemmas eval_samples =
  posixJoin_def posixRelative_def posixDirname_def posixNode_def worldOf_def
  sampleTemplate_def sampleOptions_def sampleWorld_def brokenWorld_def templateOf_def
  bareNode_def scriptsWorld_def

lemma sample_selectors [simp]:
  "template_id (templateOf name skipped) = name"
  "template_file (templateOf name skipped) = []"
  "template_skip (templateOf name skipped) = skipped"
  "options_templates (sampleOptions ts) = Some ts"
  "options_basePath (sampleOptions ts) = ''/app''"
  "options_appPath (sampleOptions ts) = []"
  by (simp_all add: templateOf_def sampleOptions_def)

section \<open>Properties of the builders and of a run\<close>

lemma unreadable_emit [simp]: "unreadable (emit e w) p = unreadable w p"
  by (simp add: unreadable_def)

lemma fs_manifestFailure [simp]: "fs (manifestFailure kind p w) = fs w"
  by (simp add: manifestFailure_def)

lemma existsSync_file:
  "fs w p = Some node \<Longrightarrow> existsSync p w = (Returns True, emit (ExistsSync p) w)"
  by (simp add: existsSync_def)

lemma buildDebugIndex_css_unreadable:
  assumes "\<not> template_skip t" and "fs w (templatePathOf env t basePath) = Some (File c)"
    and "unreadable w (path_join env [appPath, ''.build'', ''resources-css-debug-'' @ template_id t])"
  shows "fst (buildDebugIndex env options t basePath appPath w) = Exits 1
       \<and> fs (snd (buildDebugIndex env options t basePath appPath w)) = fs w"
  using assms
  by (simp add: buildDebugIndex_def Let_def andThen_def existsSync_file consoleLog_def
        readFile_def readFileSync_file addVendorCss_unreadable)

lemma buildCompiledIndex_css_unreadable:
  assumes "\<not> template_skip t" and "fs w (templatePathOf env t basePath) = Some (File c)"
    and "unreadable w (path_join env [appPath, ''.build'', ''resources-css-dist-'' @ template_id t])"
  shows "fst (buildCompiledIndex env options t basePath appPath w) = Exits 1
       \<and> fs (snd (buildCompiledIndex env options t basePath appPath w)) = fs w"
  using assms
  by (simp add: buildCompiledIndex_def Let_def andThen_def existsSync_file consoleLog_def
        readFile_def readFileSync_file addVendorCss_unreadable)

lemma buildCompiledIndex_js_unreadable:
  assumes "\<not> template_skip t" and "fs w (templatePathOf env t basePath) = Some (File c)"
    and "fs w (path_join env [appPath, ''.build'', ''resources-css-dist-'' @ template_id t]) = Some (File m)"
    and "unreadable w (path_join env [appPath, ''.build'', ''resources-js-dist-'' @ template_id t])"
  shows "fst (buildCompiledIndex env options t basePath appPath w) = Exits 1
       \<and> fs (snd (buildCompiledIndex env options t basePath appPath w)) = fs w"
  using assms
  by (simp add: buildCompiledIndex_def Let_def andThen_def existsSync_file consoleLog_def
        readFile_def readFileSync_file addVendorCss_readable addVendorScripts_unreadable
        del: decimal.simps)

lemma buildDebugIndex_js_unreadable:
  assumes "\<not> template_skip t" and "fs w (templatePathOf env t basePath) = Some (File c)"
    and "fs w (path_join env [appPath, ''.build'', ''resources-css-debug-'' @ template_id t]) = Some (File m)"
    and "includesMarker markerVendorJs
           (addAppCss (options_debugCss options)
              (stringReplace markerVendorCss (joinWith newline (map createLinkTag (splitLines m)))
                 (debugVersions c)))"
    and "unreadable w (path_join env [appPath, ''.build'', ''resources-js-debug-'' @ template_id t])"
  shows "fst (buildDebugIndex env options t basePath appPath w) = Exits 1
       \<and> fs (snd (buildDebugIndex env options t basePath appPath w)) = fs w"
  using assms
  by (simp add: buildDebugIndex_def Let_def andThen_def existsSync_file consoleLog_def
        readFile_def readFileSync_file addVendorCss_readable debugVendorScripts_def
        getVendorScripts_unreadable del: decimal.simps)

lemma callback_exits:
  "run_exit r = None \<Longrightarrow> fst (body (run_world r)) = Exits n \<Longrightarrow>
   callback st body r =
     r\<lparr>run_world := snd (body (run_world r)), run_steps := run_steps r @ [st], run_exit := Some n\<rparr>"
  by (cases "body (run_world r)") (simp add: callback_def)

lemma callback_frozen: "run_exit r \<noteq> None \<Longrightarrow> callback st body r = r"
  by (simp add: callback_def)

lemma thenBuilds_frozen:
  "run_exit r \<noteq> None \<Longrightarrow> thenBuilds env options debugOnly basePath appPath k t r = r"
  by (simp add: thenBuilds_def callback_frozen Let_def)

lemma runImmediate_frozen:
  "run_exit r \<noteq> None \<Longrightarrow> runImmediate env options debugOnly basePath appPath tasks r = r"
  by (induction env options debugOnly basePath appPath tasks r rule: runImmediate.induct)
     (simp_all add: thenBuilds_frozen)

lemma loaderFailed_frozen: "run_exit r \<noteq> None \<Longrightarrow> loaderFailed debugOnly reason r = r"
  by (simp add: loaderFailed_def)

lemma settleLoaders_frozen:
  "run_exit r \<noteq> None \<Longrightarrow> settleLoaders env options debugOnly basePath appPath tasks r = r"
  by (induction env options debugOnly basePath appPath tasks r rule: settleLoaders.induct)
     (simp_all add: thenBuilds_frozen loaderFailed_frozen)

lemma settle_frozen: "run_exit r \<noteq> None \<Longrightarrow> rejectRun e r = r \<and> fulfilRun r = r"
  by (simp add: rejectRun_def fulfilRun_def)










section \<open>Properties of the orchestration\<close>

lemma callback_steps:
  "run_steps (callback st body r) = run_steps r \<or> run_steps (callback st body r) = run_steps r @ [st]"
  by (cases "body (run_world r)" rule: prod.exhaust; cases "fst (body (run_world r))")
     (auto simp: callback_def)

lemma callback_settled [simp]: "run_settled (callback st body r) = run_settled r"
  by (cases "body (run_world r)" rule: prod.exhaust; cases "fst (body (run_world r))")
     (auto simp: callback_def)

lemma thenBuilds_settled [simp]:
  "run_settled (thenBuilds env options debugOnly basePath appPath k t r) = run_settled r"
  by (simp add: thenBuilds_def Let_def)

lemma thenBuilds_steps:
  "\<exists>bs. run_steps (thenBuilds env options debugOnly basePath appPath k t r) = run_steps r @ bs
     \<and> set bs \<subseteq> {DebugBuild k, CompiledBuild k}"
proof -
  let ?r1 = "callback (DebugBuild k) (buildDebugIndex env options t basePath appPath) r"
  let ?r2 = "callback (CompiledBuild k) (buildCompiledIndex env options t basePath appPath) ?r1"
  from callback_steps[of "DebugBuild k" _ r]
  obtain b1 where b1: "run_steps ?r1 = run_steps r @ b1" "set b1 \<subseteq> {DebugBuild k}"
    by (metis append_Nil2 empty_set empty_subsetI list.simps(15) subset_refl)
  from callback_steps[of "CompiledBuild k" _ ?r1]
  obtain b2 where b2: "run_steps ?r2 = run_steps ?r1 @ b2" "set b2 \<subseteq> {CompiledBuild k}"
    by (metis append_Nil2 empty_set empty_subsetI list.simps(15) subset_refl)
  show ?thesis
  proof (cases debugOnly)
    case True
    with b1 show ?thesis by (auto simp: thenBuilds_def Let_def)
  next
    case False
    with b1 b2 have "run_steps (thenBuilds env options debugOnly basePath appPath k t r)
        = run_steps r @ (b1 @ b2)" by (simp add: thenBuilds_def Let_def)
    moreover from b1 b2 have "set (b1 @ b2) \<subseteq> {DebugBuild k, CompiledBuild k}" by auto
    ultimately show ?thesis by blast
  qed
qed

lemma runImmediate_settled [simp]:
  "run_settled (runImmediate env options debugOnly basePath appPath tasks r) = run_settled r"
  by (induction env options debugOnly basePath appPath tasks r rule: runImmediate.induct) simp_all

lemma runImmediate_steps:
  "\<exists>bs. run_steps (runImmediate env options debugOnly basePath appPath tasks r) = run_steps r @ bs
     \<and> (\<forall>b \<in> set bs. \<exists>i t. (i, t, Immediate) \<in> set tasks \<and> (b = DebugBuild i \<or> b = CompiledBuild i))"
proof (induction env options debugOnly basePath appPath tasks r rule: runImmediate.induct)
  case (1 env options debugOnly basePath appPath r)
  then show ?case by simp
next
  case (2 env options debugOnly basePath appPath k template tasks r)
  let ?r1 = "thenBuilds env options debugOnly basePath appPath k template r"
  from thenBuilds_steps[of env options debugOnly basePath appPath k template r]
  obtain b1 where b1: "run_steps ?r1 = run_steps r @ b1" "set b1 \<subseteq> {DebugBuild k, CompiledBuild k}"
    by blast
  from 2 obtain bs where bs: "run_steps (runImmediate env options debugOnly basePath appPath tasks ?r1)
      = run_steps ?r1 @ bs"
    "\<forall>b \<in> set bs. \<exists>i t. (i, t, Immediate) \<in> set tasks \<and> (b = DebugBuild i \<or> b = CompiledBuild i)"
    by blast
  have "run_steps (runImmediate env options debugOnly basePath appPath ((k, template, Immediate) # tasks) r)
      = run_steps r @ (b1 @ bs)" using b1 bs by simp
  moreover have "\<forall>b \<in> set (b1 @ bs). \<exists>i t. (i, t, Immediate) \<in> set ((k, template, Immediate) # tasks)
      \<and> (b = DebugBuild i \<or> b = CompiledBuild i)"
    using b1(2) bs(2) by fastforce
  ultimately show ?case by blast
next
  case (3 env options debugOnly basePath appPath k template p tasks r)
  then obtain bs where "run_steps (runImmediate env options debugOnly basePath appPath tasks r)
      = run_steps r @ bs"
    "\<forall>b \<in> set bs. \<exists>i t. (i, t, Immediate) \<in> set tasks \<and> (b = DebugBuild i \<or> b = CompiledBuild i)"
    by blast
  then show ?case by fastforce
qed

lemma loaderFailed_steps [simp]: "run_steps (loaderFailed debugOnly reason r) = run_steps r"
  by (simp add: loaderFailed_def rejectRun_def Let_def)

lemma loaderFailed_exit [simp]: "run_exit (loaderFailed debugOnly reason r) = run_exit r"
  by (simp add: loaderFailed_def rejectRun_def Let_def)

lemma loaderFailed_settled:
  "run_settled (loaderFailed debugOnly reason r) =
     (if run_exit r = None \<and> run_settled r = None
      then Some (Rejected (Error (''Failed writing debug loader: '' @ reason)))
      else run_settled r)"
  by (simp add: loaderFailed_def rejectRun_def Let_def)

lemma settleLoaders_steps:
  "\<exists>bs. run_steps (settleLoaders env options debugOnly basePath appPath tasks r) = run_steps r @ bs
     \<and> (\<forall>b \<in> set bs. \<exists>i t. (i, t, Loader Fulfilled) \<in> set tasks
            \<and> (b = DebugBuild i \<or> b = CompiledBuild i))"
proof (induction env options debugOnly basePath appPath tasks r rule: settleLoaders.induct)
  case (1 env options debugOnly basePath appPath r)
  then show ?case by simp
next
  case (2 env options debugOnly basePath appPath k template tasks r)
  then obtain bs where "run_steps (settleLoaders env options debugOnly basePath appPath tasks r)
      = run_steps r @ bs"
    "\<forall>b \<in> set bs. \<exists>i t. (i, t, Loader Fulfilled) \<in> set tasks \<and> (b = DebugBuild i \<or> b = CompiledBuild i)"
    by blast
  then show ?case by fastforce
next
  case (3 env options debugOnly basePath appPath k template tasks r)
  let ?r1 = "thenBuilds env options debugOnly basePath appPath k template r"
  from thenBuilds_steps[of env options debugOnly basePath appPath k template r]
  obtain b1 where b1: "run_steps ?r1 = run_steps r @ b1" "set b1 \<subseteq> {DebugBuild k, CompiledBuild k}"
    by blast
  from 3 obtain bs where bs: "run_steps (settleLoaders env options debugOnly basePath appPath tasks ?r1)
      = run_steps ?r1 @ bs"
    "\<forall>b \<in> set bs. \<exists>i t. (i, t, Loader Fulfilled) \<in> set tasks \<and> (b = DebugBuild i \<or> b = CompiledBuild i)"
    by blast
  have "run_steps (settleLoaders env options debugOnly basePath appPath ((k, template, Loader Fulfilled) # tasks) r)
      = run_steps r @ (b1 @ bs)" using b1 bs by simp
  moreover have "\<forall>b \<in> set (b1 @ bs). \<exists>i t. (i, t, Loader Fulfilled) \<in> set ((k, template, Loader Fulfilled) # tasks)
      \<and> (b = DebugBuild i \<or> b = CompiledBuild i)"
    using b1(2) bs(2) by fastforce
  ultimately show ?case by blast
next
  case (4 env options debugOnly basePath appPath k template reason tasks r)
  let ?r1 = "loaderFailed debugOnly reason r"
  from 4 obtain bs where "run_steps (settleLoaders env options debugOnly basePath appPath tasks ?r1)
      = run_steps ?r1 @ bs"
    "\<forall>b \<in> set bs. \<exists>i t. (i, t, Loader Fulfilled) \<in> set tasks \<and> (b = DebugBuild i \<or> b = CompiledBuild i)"
    by blast
  then show ?case by fastforce
qed

lemma mapTemplates_plain:
  "filter reserved ts = [] \<Longrightarrow> mapTemplates env appPath k ts r = (tasksFor p k ts, None, r)"
  by (induction ts arbitrary: k) (auto simp: reserved_def split: if_splits)

lemma reservedFrom_plain: "filter reserved ts = [] \<Longrightarrow> reservedFrom k ts = []"
  by (induction ts arbitrary: k) (auto split: if_splits)

lemma reservedFrom_length: "length (reservedFrom k ts) = length (filter reserved ts)"
  by (induction ts arbitrary: k) auto

lemma reservedFrom_member:
  "i < length ts \<Longrightarrow> reserved (ts ! i) \<Longrightarrow> k + i \<in> set (reservedFrom k ts)"
proof (induction ts arbitrary: k i)
  case Nil
  then show ?case by simp
next
  case (Cons t ts)
  show ?case
  proof (cases i)
    case 0
    with Cons.prems show ?thesis by simp
  next
    case (Suc j)
    with Cons.prems have "Suc k + j \<in> set (reservedFrom (Suc k) ts)"
      by (intro Cons.IH) simp_all
    with Suc show ?thesis by simp
  qed
qed

lemma mapTemplates_other:
  "\<not> reserved t \<Longrightarrow>
   mapTemplates env appPath k (t # ts) r =
     (case mapTemplates env appPath (Suc k) ts r of
        (tasks, thrown, r') \<Rightarrow> ((k, t, Immediate) # tasks, thrown, r'))"
  by (auto simp: reserved_def)

lemma mapTemplates_reserved:
  "reserved t \<Longrightarrow>
   mapTemplates env appPath k (t # ts) r =
     (case buildDebugLoader env appPath (run_world r) of
        (Returns p, w) \<Rightarrow>
          (case mapTemplates env appPath (Suc k) ts
                  (r\<lparr>run_world := w, run_steps := run_steps r @ [TriggerDebugLoader k]\<rparr>) of
             (tasks, thrown, r') \<Rightarrow> ((k, t, Loader p) # tasks, thrown, r'))
      | (Throws e, w) \<Rightarrow>
          ([], Some e, r\<lparr>run_world := w, run_steps := run_steps r @ [TriggerDebugLoader k]\<rparr>)
      | (Exits n, w) \<Rightarrow>
          ([], None, r\<lparr>run_world := w, run_steps := run_steps r @ [TriggerDebugLoader k],
                        run_exit := Some n\<rparr>))"
  by (simp add: reserved_def)

lemma mapTemplates_steps:
  "length (filter reserved ts) \<le> 1 \<Longrightarrow>
   run_steps (snd (snd (mapTemplates env appPath k ts r)))
     = run_steps r @ map TriggerDebugLoader (reservedFrom k ts)"
proof (induction ts arbitrary: k r)
  case Nil
  then show ?case by simp
next
  case (Cons t ts)
  show ?case
  proof (cases "reserved t")
    case True
    with Cons.prems have none: "filter reserved ts = []" by simp
    note plain = mapTemplates_plain[OF none, of env appPath "Suc k" _ Fulfilled]
    from True have cond: "template_id t = ''index'' \<and> \<not> template_skip t" by (simp add: reserved_def)
    obtain res w' where loader: "buildDebugLoader env appPath (run_world r) = (res, w')"
      by (cases "buildDebugLoader env appPath (run_world r)")
    show ?thesis
      using True loader plain none
      by (cases res) (simp_all add: mapTemplates_reserved reservedFrom_plain del: mapTemplates.simps)
  next
    case False
    with Cons.prems have "length (filter reserved ts) \<le> 1" by simp
    from Cons.IH[OF this, of "Suc k" r] False show ?thesis
      by (cases "mapTemplates env appPath (Suc k) ts r")
         (simp add: mapTemplates_other del: mapTemplates.simps)
  qed
qed

lemma buildIndex_steps:
  assumes "options_templates opts = Some ts" and "length (filter reserved ts) \<le> 1"
  shows "\<exists>bs. run_steps (buildIndex env (Some opts) debugOnly w)
           = map TriggerDebugLoader (reservedFrom 0 ts) @ bs
         \<and> (\<forall>b \<in> set bs. \<not> isTrigger b)"
proof -
  let ?basePath = "jsOr (options_basePath opts) (process_cwd env)"
  let ?appPath = "jsOr (options_appPath opts) ?basePath"
  obtain tasks thrown r1 where m: "mapTemplates env ?appPath 0 ts (startRun w) = (tasks, thrown, r1)"
    by (cases "mapTemplates env ?appPath 0 ts (startRun w)")
  from mapTemplates_steps[OF assms(2), of env ?appPath 0 "startRun w"] m
  have s1: "run_steps r1 = map TriggerDebugLoader (reservedFrom 0 ts)"
    by (simp add: startRun_def)
  let ?r2 = "runImmediate env opts debugOnly ?basePath ?appPath tasks r1"
  let ?r3 = "case thrown of Some e \<Rightarrow> rejectRun e ?r2 | None \<Rightarrow> ?r2"
  let ?r4 = "settleLoaders env opts debugOnly ?basePath ?appPath tasks ?r3"
  from runImmediate_steps[of env opts debugOnly ?basePath ?appPath tasks r1]
  obtain b2 where b2: "run_steps ?r2 = run_steps r1 @ b2" "\<forall>b \<in> set b2. \<not> isTrigger b"
    by fastforce
  have s3: "run_steps ?r3 = run_steps ?r2"
    by (cases thrown) (simp_all add: rejectRun_def)
  from settleLoaders_steps[of env opts debugOnly ?basePath ?appPath tasks ?r3]
  obtain b4 where b4: "run_steps ?r4 = run_steps ?r3 @ b4" "\<forall>b \<in> set b4. \<not> isTrigger b"
    by fastforce
  have "buildIndex env (Some opts) debugOnly w = fulfilRun ?r4"
    using assms(1) m by (simp add: buildIndex_def Let_def)
  then have "run_steps (buildIndex env (Some opts) debugOnly w) = run_steps ?r4"
    by (simp add: fulfilRun_def)
  with s1 b2 s3 b4 have "run_steps (buildIndex env (Some opts) debugOnly w)
      = map TriggerDebugLoader (reservedFrom 0 ts) @ (b2 @ b4)" by simp
  moreover from b2(2) b4(2) have "\<forall>b \<in> set (b2 @ b4). \<not> isTrigger b" by auto
  ultimately show ?thesis by blast
qed

lemma triggers_before_builds:
  assumes "trig @ bs = pre @ b # post" and "b \<notin> set trig"
  shows "set trig \<subseteq> set pre"
proof -
  from assms(1) consider us where "trig = pre @ us" "us @ bs = b # post"
    | us where "trig @ us = pre" "bs = us @ b # post"
    by (auto simp: append_eq_append_conv2)
  then show ?thesis
  proof cases
    case 1
    show ?thesis
    proof (cases us)
      case Nil
      with 1 show ?thesis by simp
    next
      case (Cons u us')
      with 1 have "b \<in> set trig" by simp
      with assms(2) show ?thesis ..
    qed
  next
    case 2
    then show ?thesis by auto
  qed
qed

subsection \<open>A loader whose promise is rejected\<close>

text \<open>
  When the arguments file loads, every loader call returns the helper's promise, so the
  mapper registers the tasks of \<open>tasksFor\<close>; a rejected promise then rejects the run with the
  wrapped reason, unless the run is over already.
\<close>

lemma buildDebugLoader_loaded:
  assumes "require_module env (path_join env [appPath, ''.build'', ''gcc-args'']) = Some gccArgs"
  shows "buildDebugLoader env appPath w =
     (Returns (closureHelper_writeDebugLoader env gccArgs
                 (path_join env [appPath, ''.build'', ''app-loader.js''])),
      emit (WriteDebugLoader gccArgs (path_join env [appPath, ''.build'', ''app-loader.js'']))
        (emit (Require (path_join env [appPath, ''.build'', ''gcc-args''])) w))"
  using assms
  by (simp add: buildDebugLoader_def Let_def andThen_def requireModule_def getAppLoaderPath_def)

lemma mapTemplates_loaded:
  assumes "require_module env (path_join env [appPath, ''.build'', ''gcc-args'']) = Some gccArgs"
    and "p = closureHelper_writeDebugLoader env gccArgs (path_join env [appPath, ''.build'', ''app-loader.js''])"
  shows "\<exists>r'. mapTemplates env appPath k ts r = (tasksFor p k ts, None, r')
           \<and> run_steps r' = run_steps r @ map TriggerDebugLoader (reservedFrom k ts)
           \<and> run_exit r' = run_exit r \<and> run_settled r' = run_settled r"
proof (induction ts arbitrary: k r)
  case Nil
  then show ?case by simp
next
  case (Cons t ts)
  show ?case
  proof (cases "reserved t")
    case True
    let ?r1 = "r\<lparr>run_world := emit (WriteDebugLoader gccArgs (path_join env [appPath, ''.build'', ''app-loader.js'']))
                 (emit (Require (path_join env [appPath, ''.build'', ''gcc-args''])) (run_world r)),
               run_steps := run_steps r @ [TriggerDebugLoader k]\<rparr>"
    from Cons.IH[of "Suc k" ?r1]
    obtain r' where "mapTemplates env appPath (Suc k) ts ?r1 = (tasksFor p (Suc k) ts, None, r')"
      and "run_steps r' = run_steps ?r1 @ map TriggerDebugLoader (reservedFrom (Suc k) ts)"
      and "run_exit r' = run_exit ?r1" and "run_settled r' = run_settled ?r1"
      by blast
    with True assms(2) show ?thesis
      by (simp add: mapTemplates_reserved buildDebugLoader_loaded[OF assms(1)] del: mapTemplates.simps)
  next
    case False
    from Cons.IH[of "Suc k" r]
    obtain r' where "mapTemplates env appPath (Suc k) ts r = (tasksFor p (Suc k) ts, None, r')"
      and "run_steps r' = run_steps r @ map TriggerDebugLoader (reservedFrom (Suc k) ts)"
      and "run_exit r' = run_exit r" and "run_settled r' = run_settled r"
      by blast
    with False show ?thesis
      by (simp add: mapTemplates_other del: mapTemplates.simps)
  qed
qed

lemma tasksFor_member:
  "(i, t, q) \<in> set (tasksFor p k ts) \<Longrightarrow>
   k \<le> i \<and> i < k + length ts \<and> t = ts ! (i - k) \<and> q = (if reserved t then Loader p else Immediate)"
proof (induction ts arbitrary: k)
  case Nil
  then show ?case by simp
next
  case (Cons a ts)
  from Cons.prems consider "i = k" "t = a" "q = (if reserved a then Loader p else Immediate)"
    | "(i, t, q) \<in> set (tasksFor p (Suc k) ts)" by auto
  then show ?case
  proof cases
    case 1
    then show ?thesis by simp
  next
    case 2
    from Cons.IH[OF 2] have le: "Suc k \<le> i" and lt: "i < Suc k + length ts"
      and t: "t = ts ! (i - Suc k)" and q: "q = (if reserved t then Loader p else Immediate)"
      by simp_all
    from le obtain j where j: "i - k = Suc j" and j': "i - Suc k = j"
      by (cases "i - k") auto
    have "(a # ts) ! (i - k) = ts ! (i - Suc k)" using j j' by simp
    with le lt t q show ?thesis by simp
  qed
qed

lemma settleLoaders_rejected:
  "run_exit (settleLoaders env options debugOnly basePath appPath (tasksFor (Rejected reason) k ts) r)
      = run_exit r
   \<and> run_settled (settleLoaders env options debugOnly basePath appPath (tasksFor (Rejected reason) k ts) r)
      = (if run_exit r = None \<and> run_settled r = None \<and> filter reserved ts \<noteq> []
         then Some (Rejected (Error (''Failed writing debug loader: '' @ reason)))
         else run_settled r)"
proof (induction ts arbitrary: k r)
  case Nil
  then show ?case by simp
next
  case (Cons t ts)
  show ?case
  proof (cases "reserved t")
    case True
    with Cons.IH[of "Suc k" "loaderFailed debugOnly reason r"] show ?thesis
      by (simp add: loaderFailed_settled)
  next
    case False
    with Cons.IH[of "Suc k" r] show ?thesis by simp
  qed
qed

text \<open>
  The callbacks of a template with another name run before the loader's promise settles:
  when such a build ends the process on an absent manifest, the rejection of the loader is
  never delivered.
\<close>

lemma exit_precedes_loader_rejection:
  "run_steps (buildIndex (posixNode (Rejected ''boom''))
       (Some (sampleOptions [templateOf ''index'' False, templateOf ''index1'' False]))
       False brokenWorld) = [TriggerDebugLoader 0, DebugBuild 1]
   \<and> run_exit (buildIndex (posixNode (Rejected ''boom''))
       (Some (sampleOptions [templateOf ''index'' False, templateOf ''index1'' False]))
       False brokenWorld) = Some 1
   \<and> run_settled (buildIndex (posixNode (Rejected ''boom''))
       (Some (sampleOptions [templateOf ''index'' False, templateOf ''index1'' False]))
       False brokenWorld) = None"
proof -
  let ?env = "posixNode (Rejected ''boom'')"
  let ?i = "templateOf ''index'' False"
  let ?t = "templateOf ''index1'' False"
  let ?opts = "sampleOptions [?i, ?t]"
  let ?w1 = "emit (WriteDebugLoader ''gcc-args'' ''/app/.build/app-loader.js'')
               (emit (Require ''/app/.build/gcc-args'') brokenWorld)"
  let ?r1 = "(startRun brokenWorld)\<lparr>run_world := ?w1, run_steps := [TriggerDebugLoader 0]\<rparr>"
  have l: "buildDebugLoader ?env ''/app'' brokenWorld = (Returns (Rejected ''boom''), ?w1)"
    by (simp add: buildDebugLoader_def Let_def andThen_def requireModule_def getAppLoaderPath_def
          posixNode_def posixJoin_def)
  have m: "mapTemplates ?env ''/app'' 0 [?i, ?t] (startRun brokenWorld)
             = ([(0, ?i, Loader (Rejected ''boom'')), (1, ?t, Immediate)], None, ?r1)"
    using l by (simp add: startRun_def)
  have x1: "run_exit ?r1 = None" by (simp add: startRun_def)
  have d: "fst (buildDebugIndex ?env ?opts ?t ''/app'' ''/app'' (run_world ?r1)) = Exits 1"
    by (intro buildDebugIndex_css_unreadable[where c = "''<!--VENDOR_CSS-->''", THEN conjunct1])
       (simp_all add: templatePathOf_def unreadable_def Let_def jsOr_def posixNode_def posixJoin_def
          brokenWorld_def worldOf_def emit_def)
  let ?r2 = "callback (DebugBuild 1) (buildDebugIndex ?env ?opts ?t ''/app'' ''/app'') ?r1"
  from callback_exits[of ?r1 "buildDebugIndex ?env ?opts ?t ''/app'' ''/app''" 1 "DebugBuild 1", OF x1 d]
  have c: "?r2 = ?r1\<lparr>run_world := snd (buildDebugIndex ?env ?opts ?t ''/app'' ''/app'' (run_world ?r1)),
                       run_steps := run_steps ?r1 @ [DebugBuild 1], run_exit := Some 1\<rparr>" .
  then have x2: "run_exit ?r2 \<noteq> None" and s2: "run_steps ?r2 = [TriggerDebugLoader 0, DebugBuild 1]"
    and t2: "run_settled ?r2 = None" and x2': "run_exit ?r2 = Some 1"
    by (simp_all add: startRun_def)
  have tb: "thenBuilds ?env ?opts False ''/app'' ''/app'' 1 ?t ?r1 = ?r2"
    using x2 by (simp add: thenBuilds_def Let_def callback_frozen)
  have b: "jsOr ''/app'' (process_cwd ?env) = ''/app''"
    by (simp add: jsOr_def)
  have a: "jsOr [] ''/app'' = ''/app''"
    by (simp add: jsOr_def)
  let ?tasks = "[(0, ?i, Loader (Rejected ''boom'')), (1, ?t, Immediate)]"
  have i: "runImmediate ?env ?opts False ''/app'' ''/app'' ?tasks ?r1 = ?r2"
    using tb by simp
  have "buildIndex ?env (Some ?opts) False brokenWorld
          = fulfilRun (settleLoaders ?env ?opts False ''/app'' ''/app'' ?tasks ?r2)"
    by (simp only: buildIndex_def option.case sample_selectors Let_def b a m prod.case i)
  also have "\<dots> = ?r2"
    by (simp only: settleLoaders_frozen[OF x2] conjunct2[OF settle_frozen[OF x2]])
  finally have "buildIndex ?env (Some ?opts) False brokenWorld = ?r2" .
  with s2 t2 x2' show ?thesis by simp
qed

section \<open>The claims\<close>

text \<open>
  C9. A template descriptor whose \<open>skip\<close> flag is set is left alone by both builders: the
  debug builder and the compiled builder return successfully and the world they leave is the
  world they were given, so no file is tested, read or written and nothing is printed.
\<close>

theorem skipped_template_untouched:
  assumes "template_skip templateOptions"
  shows "buildDebugIndex env options templateOptions basePath appPath w = (Returns (), w)
       \<and> buildCompiledIndex env options templateOptions basePath appPath w = (Returns (), w)"
  using assms by (simp add: buildDebugIndex_def buildCompiledIndex_def ret_def Let_def)

theorem skipped_template_untouched_witness:
  "buildDebugIndex (posixNode Fulfilled) (sampleOptions []) (templateOf ''index1'' True)
      ''/app'' ''/app'' sampleWorld = (Returns (), sampleWorld)
   \<and> buildCompiledIndex (posixNode Fulfilled) (sampleOptions []) (templateOf ''index1'' True)
      ''/app'' ''/app'' sampleWorld = (Returns (), sampleWorld)"
  using skipped_template_untouched[of "templateOf ''index1'' True" "posixNode Fulfilled"
      "sampleOptions []" "''/app''" "''/app''" sampleWorld]
  by (simp add: templateOf_def)

text \<open>
  C4. When a vendor manifest cannot be read, the process is ended with status 1 after two
  error lines, whichever manifest it is: \<open>addVendorCss\<close>, \<open>getVendorScripts\<close> and
  \<open>addVendorScripts\<close> log and exit; the debug builder exits on its CSS manifest and (when the
  vendor script marker is in the text) on its script manifest, the compiled builder on its
  CSS and on its script manifest; and in a run of \<open>buildIndex\<close> the exit is not the failure
  of one template's build: the callback that meets it records the exit code, and from then on
  no callback of any template, no rejection and no fulfilment changes the run.
\<close>

theorem manifest_read_failure_ends_process:
  assumes "unreadable w inputFile"
  shows
    "addVendorCss template inputFile w = (Exits 1, manifestFailure ''styles'' inputFile w)
   \<and> getVendorScripts inputFile w = (Exits 1, manifestFailure ''scripts'' inputFile w)
   \<and> addVendorScripts template inputFile w = (Exits 1, manifestFailure ''scripts'' inputFile w)
   \<and> (\<not> template_skip t \<and> fs w (templatePathOf env t basePath) = Some (File c) \<longrightarrow>
        (inputFile = path_join env [appPath, ''.build'', ''resources-css-debug-'' @ template_id t] \<longrightarrow>
           fst (buildDebugIndex env options t basePath appPath w) = Exits 1)
      \<and> (inputFile = path_join env [appPath, ''.build'', ''resources-css-dist-'' @ template_id t] \<longrightarrow>
           fst (buildCompiledIndex env options t basePath appPath w) = Exits 1)
      \<and> (inputFile = path_join env [appPath, ''.build'', ''resources-js-dist-'' @ template_id t]
           \<and> fs w (path_join env [appPath, ''.build'', ''resources-css-dist-'' @ template_id t])
               = Some (File m) \<longrightarrow>
           fst (buildCompiledIndex env options t basePath appPath w) = Exits 1)
      \<and> (inputFile = path_join env [appPath, ''.build'', ''resources-js-debug-'' @ template_id t]
           \<and> fs w (path_join env [appPath, ''.build'', ''resources-css-debug-'' @ template_id t])
               = Some (File m)
           \<and> includesMarker markerVendorJs
                (addAppCss (options_debugCss options)
                   (stringReplace markerVendorCss
                      (joinWith newline (map createLinkTag (splitLines m))) (debugVersions c))) \<longrightarrow>
           fst (buildDebugIndex env options t basePath appPath w) = Exits 1))
   \<and> (run_exit r = None \<and> fst (body (run_world r)) = Exits n \<longrightarrow>
        run_exit (callback st body r) = Some n
        \<and> run_settled (callback st body r) = run_settled r)
   \<and> (run_exit r' \<noteq> None \<longrightarrow>
        thenBuilds env options debugOnly basePath appPath k t' r' = r'
        \<and> runImmediate env options debugOnly basePath appPath tasks r' = r'
        \<and> settleLoaders env options debugOnly basePath appPath tasks r' = r'
        \<and> loaderFailed debugOnly reason r' = r'
        \<and> rejectRun e r' = r'
        \<and> fulfilRun r' = r')"
proof (intro conjI impI)
  show "addVendorCss template inputFile w = (Exits 1, manifestFailure ''styles'' inputFile w)"
    using assms by (rule addVendorCss_unreadable)
  show "getVendorScripts inputFile w = (Exits 1, manifestFailure ''scripts'' inputFile w)"
    using assms by (rule getVendorScripts_unreadable)
  show "addVendorScripts template inputFile w = (Exits 1, manifestFailure ''scripts'' inputFile w)"
    using assms by (rule addVendorScripts_unreadable)
next
  assume "\<not> template_skip t \<and> fs w (templatePathOf env t basePath) = Some (File c)"
    and "inputFile = path_join env [appPath, ''.build'', ''resources-css-debug-'' @ template_id t]"
  with assms show "fst (buildDebugIndex env options t basePath appPath w) = Exits 1"
    by (simp add: buildDebugIndex_css_unreadable)
next
  assume "\<not> template_skip t \<and> fs w (templatePathOf env t basePath) = Some (File c)"
    and "inputFile = path_join env [appPath, ''.build'', ''resources-css-dist-'' @ template_id t]"
  with assms show "fst (buildCompiledIndex env options t basePath appPath w) = Exits 1"
    by (simp add: buildCompiledIndex_css_unreadable)
next
  assume "\<not> template_skip t \<and> fs w (templatePathOf env t basePath) = Some (File c)"
    and "inputFile = path_join env [appPath, ''.build'', ''resources-js-dist-'' @ template_id t]
           \<and> fs w (path_join env [appPath, ''.build'', ''resources-css-dist-'' @ template_id t])
               = Some (File m)"
  with assms show "fst (buildCompiledIndex env options t basePath appPath w) = Exits 1"
    by (simp add: buildCompiledIndex_js_unreadable)
next
  assume "\<not> template_skip t \<and> fs w (templatePathOf env t basePath) = Some (File c)"
    and "inputFile = path_join env [appPath, ''.build'', ''resources-js-debug-'' @ template_id t]
           \<and> fs w (path_join env [appPath, ''.build'', ''resources-css-debug-'' @ template_id t])
               = Some (File m)
           \<and> includesMarker markerVendorJs
                (addAppCss (options_debugCss options)
                   (stringReplace markerVendorCss
                      (joinWith newline (map createLinkTag (splitLines m))) (debugVersions c)))"
  with assms show "fst (buildDebugIndex env options t basePath appPath w) = Exits 1"
    by (simp add: buildDebugIndex_js_unreadable)
next
  assume a: "run_exit r = None \<and> fst (body (run_world r)) = Exits n"
  then show "run_exit (callback st body r) = Some n"
    and "run_settled (callback st body r) = run_settled r"
    by (simp_all add: callback_exits)
next
  assume a: "run_exit r' \<noteq> None"
  then show "thenBuilds env options debugOnly basePath appPath k t' r' = r'"
    by (rule thenBuilds_frozen)
  from a show "runImmediate env options debugOnly basePath appPath tasks r' = r'"
    by (rule runImmediate_frozen)
  from a show "settleLoaders env options debugOnly basePath appPath tasks r' = r'"
    by (rule settleLoaders_frozen)
  from a show "loaderFailed debugOnly reason r' = r'" by (rule loaderFailed_frozen)
  from a show "rejectRun e r' = r'" by (simp add: settle_frozen)
  from a show "fulfilRun r' = r'" by (simp add: settle_frozen)
qed

theorem manifest_read_failure_ends_process_witness:
  "unreadable brokenWorld ''/app/.build/resources-css-debug-index1''
   \<and> addVendorCss markerVendorCss ''/app/.build/resources-css-debug-index1'' brokenWorld
       = (Exits 1, manifestFailure ''styles'' ''/app/.build/resources-css-debug-index1'' brokenWorld)
   \<and> fst (buildDebugIndex (posixNode Fulfilled) (sampleOptions []) (templateOf ''index1'' False)
            ''/app'' ''/app'' brokenWorld) = Exits 1
   \<and> run_exit (callback (DebugBuild 0)
         (buildDebugIndex (posixNode Fulfilled) (sampleOptions []) (templateOf ''index1'' False)
            ''/app'' ''/app'') (startRun brokenWorld)) = Some 1
   \<and> thenBuilds (posixNode Fulfilled) (sampleOptions []) False ''/app'' ''/app'' 1
         (templateOf ''index2'' False)
         (callback (DebugBuild 0)
            (buildDebugIndex (posixNode Fulfilled) (sampleOptions []) (templateOf ''index1'' False)
               ''/app'' ''/app'') (startRun brokenWorld))
       = callback (DebugBuild 0)
            (buildDebugIndex (posixNode Fulfilled) (sampleOptions []) (templateOf ''index1'' False)
               ''/app'' ''/app'') (startRun brokenWorld)"
proof -
  let ?env = "posixNode Fulfilled" and ?t = "templateOf ''index1'' False"
  let ?p = "''/app/.build/resources-css-debug-index1''"
  let ?body = "buildDebugIndex ?env (sampleOptions []) ?t ''/app'' ''/app''"
  let ?r = "callback (DebugBuild 0) ?body (startRun brokenWorld)"
  have u: "unreadable brokenWorld ?p"
    by (simp add: unreadable_def brokenWorld_def worldOf_def)
  have t: "\<not> template_skip ?t \<and> fs brokenWorld (templatePathOf ?env ?t ''/app'')
             = Some (File ''<!--VENDOR_CSS-->'')"
    by (simp add: brokenWorld_def worldOf_def templatePathOf_def posixNode_def posixJoin_def jsOr_def)
  have p: "?p = path_join ?env [''/app'', ''.build'', ''resources-css-debug-'' @ template_id ?t]"
    by (simp add: posixNode_def posixJoin_def)
  note inst = manifest_read_failure_ends_process[OF u, of markerVendorCss ?t ?env "''/app''"
      "''<!--VENDOR_CSS-->''" "''/app''" "sampleOptions []" _ "startRun brokenWorld" ?body 1
      "DebugBuild 0" ?r False 1 "templateOf ''index2'' False"]
  from inst t p have b: "fst (?body brokenWorld) = Exits 1" by blast
  then have b': "run_exit (startRun brokenWorld) = None
      \<and> fst (?body (run_world (startRun brokenWorld))) = Exits 1"
    by (simp add: startRun_def)
  from inst b' have e: "run_exit ?r = Some 1" by blast
  then have "run_exit ?r \<noteq> None" by simp
  with inst have "thenBuilds ?env (sampleOptions []) False ''/app'' ''/app'' 1
      (templateOf ''index2'' False) ?r = ?r" by blast
  with inst u b e show ?thesis by blast
qed

text \<open>
  C5, as amended. For a vendor manifest that can be read, the first occurrence of the vendor
  marker is replaced by the tags of the manifest's lines joined by line feeds (the joined
  text goes through JavaScript's replacement patterns, which leave it as it is when the
  manifest holds no dollar sign): the non-empty tags are those of the non-empty lines, one
  for each and in file order, and an empty manifest gives an empty block, so the marker is
  removed. An absent manifest is not this case: it ends the process (C4).
\<close>

theorem vendor_tags_from_manifest:
  assumes "fs w inputFile = Some (File content)"
  shows
    "(\<not> sublist markerVendorCss (front @ butlast markerVendorCss) \<longrightarrow>
        fst (addVendorCss (front @ markerVendorCss @ rear) inputFile w) =
          Returns (front @ getSubstitution markerVendorCss front rear
                     (joinWith newline (map createLinkTag (splitLines content))) @ rear))
   \<and> (\<not> sublist markerVendorJs (front @ butlast markerVendorJs) \<longrightarrow>
        fst (addVendorScripts (front @ markerVendorJs @ rear) inputFile w) =
          Returns (front @ getSubstitution markerVendorJs front rear
                     (joinWith newline (map createScriptTag (splitLines content))) @ rear))
   \<and> (CHR ''$'' \<notin> set content \<longrightarrow>
        getSubstitution markerVendorCss front rear
            (joinWith newline (map createLinkTag (splitLines content)))
          = joinWith newline (map createLinkTag (splitLines content))
        \<and> getSubstitution markerVendorJs front rear
            (joinWith newline (map createScriptTag (splitLines content)))
          = joinWith newline (map createScriptTag (splitLines content)))
   \<and> filter (\<lambda>t. t \<noteq> []) (map createLinkTag (splitLines content))
        = map createLinkTag (filter (\<lambda>l. l \<noteq> []) (splitLines content))
   \<and> filter (\<lambda>t. t \<noteq> []) (map createScriptTag (splitLines content))
        = map createScriptTag (filter (\<lambda>l. l \<noteq> []) (splitLines content))
   \<and> (content = [] \<longrightarrow>
        joinWith newline (map createLinkTag (splitLines content)) = []
        \<and> joinWith newline (map createScriptTag (splitLines content)) = [])"
proof (intro conjI impI)
  assume "\<not> sublist markerVendorCss (front @ butlast markerVendorCss)"
  then show "fst (addVendorCss (front @ markerVendorCss @ rear) inputFile w) =
          Returns (front @ getSubstitution markerVendorCss front rear
                     (joinWith newline (map createLinkTag (splitLines content))) @ rear)"
    using assms by (simp add: addVendorCss_readable stringReplace_first markers_nonempty del: decimal.simps)
next
  assume "\<not> sublist markerVendorJs (front @ butlast markerVendorJs)"
  then show "fst (addVendorScripts (front @ markerVendorJs @ rear) inputFile w) =
          Returns (front @ getSubstitution markerVendorJs front rear
                     (joinWith newline (map createScriptTag (splitLines content))) @ rear)"
    using assms by (simp add: addVendorScripts_readable stringReplace_first markers_nonempty del: decimal.simps)
next
  assume "CHR ''$'' \<notin> set content"
  then show "getSubstitution markerVendorCss front rear
            (joinWith newline (map createLinkTag (splitLines content)))
          = joinWith newline (map createLinkTag (splitLines content))"
    by (intro getSubstitution_plain dollar_free_links)
next
  assume "CHR ''$'' \<notin> set content"
  then show "getSubstitution markerVendorJs front rear
            (joinWith newline (map createScriptTag (splitLines content)))
          = joinWith newline (map createScriptTag (splitLines content))"
    by (intro getSubstitution_plain dollar_free_scripts)
next
  show "filter (\<lambda>t. t \<noteq> []) (map createLinkTag (splitLines content))
        = map createLinkTag (filter (\<lambda>l. l \<noteq> []) (splitLines content))"
    by (simp add: tags_of_lines)
next
  show "filter (\<lambda>t. t \<noteq> []) (map createScriptTag (splitLines content))
        = map createScriptTag (filter (\<lambda>l. l \<noteq> []) (splitLines content))"
    by (simp add: tags_of_lines)
next
  assume "content = []"
  then show "joinWith newline (map createLinkTag (splitLines content)) = []"
    by (simp add: createLinkTag_def)
next
  assume "content = []"
  then show "joinWith newline (map createScriptTag (splitLines content)) = []"
    by (simp add: createScriptTag_def)
qed

theorem vendor_tags_from_manifest_witness:
  "fs sampleWorld ''/app/.build/resources-css-debug-index1''
      = Some (File (''a.css'' @ newline @ ''b.css''))
   \<and> fst (addVendorCss (''<p>'' @ markerVendorCss @ ''</p>'')
            ''/app/.build/resources-css-debug-index1'' sampleWorld)
       = Returns (''<p>'' @ createLinkTag ''a.css'' @ newline @ createLinkTag ''b.css'' @ ''</p>'')
   \<and> length (filter (\<lambda>t. t \<noteq> [])
         (map createLinkTag (splitLines (''a.css'' @ newline @ ''b.css'')))) = 2"
proof -
  let ?content = "''a.css'' @ newline @ ''b.css''"
  have h: "fs sampleWorld ''/app/.build/resources-css-debug-index1'' = Some (File ?content)"
    by (simp add: sampleWorld_def worldOf_def)
  have first: "\<not> sublist markerVendorCss (''<p>'' @ butlast markerVendorCss)"
    by (simp add: markerVendorCss_def sublist_code(3))
  have plain: "CHR ''$'' \<notin> set ?content" by (simp add: newline_def)
  note inst = vendor_tags_from_manifest[OF h, of "''<p>''" "''</p>''"]
  from inst first plain
  have "fst (addVendorCss (''<p>'' @ markerVendorCss @ ''</p>'')
            ''/app/.build/resources-css-debug-index1'' sampleWorld)
       = Returns (''<p>'' @ joinWith newline (map createLinkTag (splitLines ?content)) @ ''</p>'')"
    by simp
  moreover have "splitLines ?content = [''a.css'', ''b.css'']" by (simp add: newline_def)
  moreover have "createLinkTag ''a.css'' \<noteq> [] \<and> createLinkTag ''b.css'' \<noteq> []"
    by (simp add: createLinkTag_def)
  ultimately show ?thesis using h by simp
qed

text \<open>
  C5 as stated fails for an absent manifest: the helper ends the process with status 1, and
  a debug build whose vendor CSS manifest is absent exits without writing its output file.
\<close>

theorem absent_manifest_counterexample:
  "fst (addVendorCss markerVendorCss ''/app/.build/resources-css-debug-index1''
          (worldOf [(''/app/index1-template.html'', sampleTemplate)])) = Exits 1
   \<and> fst (buildDebugIndex (posixNode Fulfilled) (sampleOptions []) (templateOf ''index1'' False)
          ''/app'' ''/app'' (worldOf [(''/app/index1-template.html'', sampleTemplate)])) = Exits 1
   \<and> fs (snd (buildDebugIndex (posixNode Fulfilled) (sampleOptions []) (templateOf ''index1'' False)
          ''/app'' ''/app'' (worldOf [(''/app/index1-template.html'', sampleTemplate)])))
        ''/app/index1.html'' = None"
  by code_simp




text \<open>
  C7, as amended. In the debug build the version substitution makes three passes over the
  template text, whatever the configured version values: every occurrence of \<^verbatim>\<open>@version@\<close>,
  found from left to right, is removed, then every occurrence of \<^verbatim>\<open>@appVersion@\<close> and then
  of \<^verbatim>\<open>@packageVersion@\<close> is replaced by \<^verbatim>\<open>dev\<close>. The text the passes produce holds neither
  \<^verbatim>\<open>@appVersion@\<close> nor \<^verbatim>\<open>@packageVersion@\<close>. (It can hold \<^verbatim>\<open>@version@\<close>, put together by a
  removal, and the tags inserted afterwards are not substituted.)
\<close>

theorem debug_version_passes:
  "debugVersions template =
     replaceEvery tokenPackageVersion ''dev''
       (replaceEvery tokenAppVersion ''dev'' (replaceEvery tokenVersion [] template))
   \<and> \<not> sublist tokenAppVersion (debugVersions template)
   \<and> \<not> sublist tokenPackageVersion (debugVersions template)
   \<and> buildDebugIndex env
        (options\<lparr>options_appVersion := v, options_packageVersion := p, options_overrideVersion := ov\<rparr>)
        templateOptions basePath appPath
      = buildDebugIndex env options templateOptions basePath appPath"
proof (intro conjI)
  show "debugVersions template =
     replaceEvery tokenPackageVersion ''dev''
       (replaceEvery tokenAppVersion ''dev'' (replaceEvery tokenVersion [] template))"
    by (rule debugVersions_refines)
  show "\<not> sublist tokenAppVersion (debugVersions template)"
    using debugVersions_free[of template] by blast
  show "\<not> sublist tokenPackageVersion (debugVersions template)"
    using debugVersions_free[of template] by blast
  show "buildDebugIndex env
        (options\<lparr>options_appVersion := v, options_packageVersion := p, options_overrideVersion := ov\<rparr>)
        templateOptions basePath appPath
      = buildDebugIndex env options templateOptions basePath appPath"
    by (simp add: buildDebugIndex_def Let_def cong del: if_weak_cong)
qed

theorem debug_version_passes_witness:
  "debugVersions ''<a v=@appVersion@ w=@packageVersion@ p=@version@x.js>'' = ''<a v=dev w=dev p=x.js>''
   \<and> \<not> sublist tokenAppVersion (debugVersions ''<a v=@appVersion@ w=@packageVersion@ p=@version@x.js>'')"
proof -
  have e: "replaceEvery tokenPackageVersion ''dev''
       (replaceEvery tokenAppVersion ''dev''
          (replaceEvery tokenVersion [] ''<a v=@appVersion@ w=@packageVersion@ p=@version@x.js>''))
     = ''<a v=dev w=dev p=x.js>''"
    by code_simp
  note inst = debug_version_passes[of "''<a v=@appVersion@ w=@packageVersion@ p=@version@x.js>''"]
  from inst e have a: "debugVersions ''<a v=@appVersion@ w=@packageVersion@ p=@version@x.js>''
      = ''<a v=dev w=dev p=x.js>''" by simp
  from inst have b: "\<not> sublist tokenAppVersion
      (debugVersions ''<a v=@appVersion@ w=@packageVersion@ p=@version@x.js>'')" by blast
  from a b show ?thesis by (rule conjI)
qed

text \<open>
  C7 as stated fails: removing the \<^verbatim>\<open>@version@\<close> inside \<^verbatim>\<open>@versio@version@n@\<close> leaves
  \<^verbatim>\<open>@version@\<close>, and the debug build writes it to its output file.
\<close>

theorem debug_version_counterexample:
  "fs (snd (buildDebugIndex (posixNode Fulfilled) (sampleOptions []) (templateOf ''x'' False)
        ''/app'' ''/app''
        (worldOf [(''/app/x-template.html'', ''@versio@version@n@''),
                  (''/app/.build/resources-css-debug-x'', [])])))
     ''/app/x.html'' = Some (File ''@version@'')
   \<and> sublist tokenVersion ''@version@''"
  by code_simp






text \<open>
  C1, as amended. A loader generation is triggered only by a template whose id is the
  reserved name \<^verbatim>\<open>index\<close> and whose skip flag is not set: for a template list with at most
  one such template, the generations a run of \<open>buildIndex\<close> starts are exactly one for that
  template (the first and only one of its kind in the list) and none when the list has no
  such template; and the generation is started before that template's own debug build runs.
\<close>

theorem loader_triggered_by_reserved_template:
  assumes "options_templates opts = Some ts" and "length (filter reserved ts) \<le> 1"
  shows "loaderTriggers (buildIndex env (Some opts) debugOnly w)
           = map TriggerDebugLoader (reservedFrom 0 ts)
       \<and> length (loaderTriggers (buildIndex env (Some opts) debugOnly w))
           = length (filter reserved ts)
       \<and> (\<forall>k pre post.
             run_steps (buildIndex env (Some opts) debugOnly w) = pre @ DebugBuild k # post
             \<and> k < length ts \<and> reserved (ts ! k) \<longrightarrow>
             TriggerDebugLoader k \<in> set pre)"
proof -
  let ?R = "buildIndex env (Some opts) debugOnly w"
  let ?T = "map TriggerDebugLoader (reservedFrom 0 ts)"
  from buildIndex_steps[OF assms, of env debugOnly w]
  obtain bs where steps: "run_steps ?R = ?T @ bs" and builds: "\<forall>b \<in> set bs. \<not> isTrigger b"
    by blast
  have "filter isTrigger ?T = ?T" by (induction "reservedFrom 0 ts") auto
  moreover from builds have "filter isTrigger bs = []" by (induction bs) auto
  ultimately have triggers: "loaderTriggers ?R = ?T"
    using steps by (simp add: loaderTriggers_def)
  then have count: "length (loaderTriggers ?R) = length (filter reserved ts)"
    by (simp add: reservedFrom_length)
  have order: "TriggerDebugLoader k \<in> set pre"
    if "run_steps ?R = pre @ DebugBuild k # post \<and> k < length ts \<and> reserved (ts ! k)"
    for k pre post
  proof -
    from that steps have eq: "?T @ bs = pre @ DebugBuild k # post" by simp
    have "DebugBuild k \<notin> set ?T" by auto
    with eq have "set ?T \<subseteq> set pre" by (rule triggers_before_builds)
    moreover from that have "0 + k \<in> set (reservedFrom 0 ts)" by (intro reservedFrom_member) simp_all
    ultimately show ?thesis by auto
  qed
  from triggers count order show ?thesis by blast
qed

theorem loader_triggered_by_reserved_template_witness:
  "length (filter reserved [templateOf ''index1'' False, templateOf ''index'' False]) \<le> 1
   \<and> loaderTriggers (buildIndex (posixNode Fulfilled)
        (Some (sampleOptions [templateOf ''index1'' False, templateOf ''index'' False]))
        False sampleWorld) = [TriggerDebugLoader 1]"
proof -
  let ?ts = "[templateOf ''index1'' False, templateOf ''index'' False]"
  have t: "options_templates (sampleOptions ?ts) = Some ?ts" by simp
  have h: "length (filter reserved ?ts) \<le> 1" by (simp add: reserved_def)
  have "reservedFrom 0 ?ts = [1]" by (simp add: reserved_def)
  with loader_triggered_by_reserved_template[OF t h, of "posixNode Fulfilled" False sampleWorld] h
  show ?thesis by simp
qed

text \<open>
  C1 as stated fails for a list without a template named \<^verbatim>\<open>index\<close>, such as the list of the
  repository's own test: no generation is triggered, not exactly one.
\<close>

theorem no_reserved_template_counterexample:
  "length (loaderTriggers (buildIndex (posixNode Fulfilled)
      (Some (sampleOptions [templateOf ''index1'' False, templateOf ''index2'' False,
                            templateOf ''noapp'' False, templateOf ''novendor'' False]))
      False sampleWorld)) \<noteq> 1"
proof -
  let ?ts = "[templateOf ''index1'' False, templateOf ''index2'' False,
              templateOf ''noapp'' False, templateOf ''novendor'' False]"
  have t: "options_templates (sampleOptions ?ts) = Some ?ts" by simp
  have h: "length (filter reserved ?ts) \<le> 1" by (simp add: reserved_def)
  have n: "reservedFrom 0 ?ts = []" by (simp add: reserved_def)
  from buildIndex_steps[OF t h, of "posixNode Fulfilled" False sampleWorld] n
  obtain bs where "run_steps (buildIndex (posixNode Fulfilled) (Some (sampleOptions ?ts)) False sampleWorld) = bs"
    and "\<forall>b \<in> set bs. \<not> isTrigger b" by auto
  then have "loaderTriggers (buildIndex (posixNode Fulfilled) (Some (sampleOptions ?ts)) False sampleWorld) = []"
    by (simp add: loaderTriggers_def)
  then show ?thesis by simp
qed

text \<open>
  C3, as amended. When the arguments file loads and the promise of the loader generation is
  rejected with a reason, no debug build and no compiled build of a template named
  \<^verbatim>\<open>index\<close> (and not skipped) is performed, and the promise of \<open>buildIndex\<close> is rejected
  with the error \<^verbatim>\<open>Failed writing debug loader: \<close> followed by the reason, provided the
  process has not been ended before by a manifest read failure in the build of another
  template (\<open>exit_precedes_loader_rejection\<close>).
\<close>

theorem loader_failure_rejects:
  assumes "options_templates opts = Some ts"
    and "require_module env
           (path_join env [jsOr (options_appPath opts) (jsOr (options_basePath opts) (process_cwd env)),
                           ''.build'', ''gcc-args'']) = Some gccArgs"
    and "closureHelper_writeDebugLoader env gccArgs
           (path_join env [jsOr (options_appPath opts) (jsOr (options_basePath opts) (process_cwd env)),
                           ''.build'', ''app-loader.js'']) = Rejected reason"
    and "k < length ts" and "reserved (ts ! k)"
  shows "DebugBuild k \<notin> set (run_steps (buildIndex env (Some opts) debugOnly w))
       \<and> CompiledBuild k \<notin> set (run_steps (buildIndex env (Some opts) debugOnly w))
       \<and> (run_exit (buildIndex env (Some opts) debugOnly w) = None \<longrightarrow>
            run_settled (buildIndex env (Some opts) debugOnly w)
              = Some (Rejected (Error (''Failed writing debug loader: '' @ reason))))"
proof -
  let ?basePath = "jsOr (options_basePath opts) (process_cwd env)"
  let ?appPath = "jsOr (options_appPath opts) ?basePath"
  let ?tasks = "tasksFor (Rejected reason) 0 ts"
  let ?R = "buildIndex env (Some opts) debugOnly w"
  from mapTemplates_loaded[OF assms(2) assms(3)[symmetric], of 0 ts "startRun w"]
  obtain r1 where m: "mapTemplates env ?appPath 0 ts (startRun w) = (?tasks, None, r1)"
    and s1: "run_steps r1 = map TriggerDebugLoader (reservedFrom 0 ts)"
    and x1: "run_exit r1 = None" and t1: "run_settled r1 = None"
    by (auto simp: startRun_def)
  let ?r2 = "runImmediate env opts debugOnly ?basePath ?appPath ?tasks r1"
  let ?r4 = "settleLoaders env opts debugOnly ?basePath ?appPath ?tasks ?r2"
  have R: "?R = fulfilRun ?r4" using assms(1) m by (simp add: buildIndex_def Let_def)
  from runImmediate_steps[of env opts debugOnly ?basePath ?appPath ?tasks r1]
  obtain b2 where b2: "run_steps ?r2 = run_steps r1 @ b2"
    and i2: "\<forall>b \<in> set b2. \<exists>i t. (i, t, Immediate) \<in> set ?tasks \<and> (b = DebugBuild i \<or> b = CompiledBuild i)"
    by blast
  from settleLoaders_steps[of env opts debugOnly ?basePath ?appPath ?tasks ?r2]
  obtain b4 where b4: "run_steps ?r4 = run_steps ?r2 @ b4"
    and i4: "\<forall>b \<in> set b4. \<exists>i t. (i, t, Loader Fulfilled) \<in> set ?tasks \<and> (b = DebugBuild i \<or> b = CompiledBuild i)"
    by blast
  have none4: "b4 = []"
  proof (cases b4)
    case Nil then show ?thesis .
  next
    case (Cons b bs)
    with i4 obtain i t where "(i, t, Loader Fulfilled) \<in> set ?tasks" by auto
    from tasksFor_member[OF this] show ?thesis by (simp split: if_splits)
  qed
  have notk: "b \<noteq> DebugBuild k \<and> b \<noteq> CompiledBuild k" if "b \<in> set b2" for b
  proof -
    from that i2 obtain i t where mem: "(i, t, Immediate) \<in> set ?tasks"
      and b: "b = DebugBuild i \<or> b = CompiledBuild i" by blast
    from tasksFor_member[OF mem] have "t = ts ! i" and "\<not> reserved t"
      by (simp_all split: if_splits)
    with assms(5) have "i \<noteq> k" by auto
    with b show ?thesis by auto
  qed
  have steps: "run_steps ?R = map TriggerDebugLoader (reservedFrom 0 ts) @ b2"
    using R b2 b4 none4 s1 by (simp add: fulfilRun_def)
  have d: "DebugBuild k \<notin> set (run_steps ?R)" and c: "CompiledBuild k \<notin> set (run_steps ?R)"
    using steps notk by auto
  have "ts ! k \<in> set ts" using assms(4) by simp
  with assms(5) have some: "filter reserved ts \<noteq> []" by (auto simp: filter_empty_conv)
  have t2: "run_settled ?r2 = None" using t1 by simp
  from settleLoaders_rejected[of env opts debugOnly ?basePath ?appPath reason 0 ts ?r2]
  have x4: "run_exit ?r4 = run_exit ?r2"
    and t4: "run_settled ?r4 = (if run_exit ?r2 = None \<and> run_settled ?r2 = None \<and> filter reserved ts \<noteq> []
         then Some (Rejected (Error (''Failed writing debug loader: '' @ reason)))
         else run_settled ?r2)"
    by blast+
  have p: "run_settled ?R = Some (Rejected (Error (''Failed writing debug loader: '' @ reason)))"
    if "run_exit ?R = None"
  proof -
    from that R have "run_exit ?r4 = None" by (simp add: fulfilRun_def split: if_splits)
    with x4 have "run_exit ?r2 = None" by simp
    with t4 t2 some have "run_settled ?r4
        = Some (Rejected (Error (''Failed writing debug loader: '' @ reason)))" by simp
    with R show ?thesis by (simp add: fulfilRun_def)
  qed
  from d c p show ?thesis by blast
qed

theorem loader_failure_rejects_witness:
  "reserved ([templateOf ''index'' False] ! 0)
   \<and> DebugBuild 0 \<notin> set (run_steps (buildIndex (posixNode (Rejected ''boom''))
         (Some (sampleOptions [templateOf ''index'' False])) False (worldOf [])))
   \<and> CompiledBuild 0 \<notin> set (run_steps (buildIndex (posixNode (Rejected ''boom''))
         (Some (sampleOptions [templateOf ''index'' False])) False (worldOf [])))
   \<and> run_exit (buildIndex (posixNode (Rejected ''boom''))
         (Some (sampleOptions [templateOf ''index'' False])) False (worldOf [])) = None
   \<and> run_settled (buildIndex (posixNode (Rejected ''boom''))
         (Some (sampleOptions [templateOf ''index'' False])) False (worldOf []))
        = Some (Rejected (Error ''Failed writing debug loader: boom''))"
proof -
  let ?ts = "[templateOf ''index'' False]"
  let ?env = "posixNode (Rejected ''boom'')"
  let ?R = "buildIndex ?env (Some (sampleOptions ?ts)) False (worldOf [])"
  have t: "options_templates (sampleOptions ?ts) = Some ?ts" by simp
  have a: "require_module ?env
      (path_join ?env [jsOr (options_appPath (sampleOptions ?ts))
                         (jsOr (options_basePath (sampleOptions ?ts)) (process_cwd ?env)),
                       ''.build'', ''gcc-args'']) = Some ''gcc-args''"
    by (simp add: posixNode_def)
  have b: "closureHelper_writeDebugLoader ?env ''gcc-args''
      (path_join ?env [jsOr (options_appPath (sampleOptions ?ts))
                         (jsOr (options_basePath (sampleOptions ?ts)) (process_cwd ?env)),
                       ''.build'', ''app-loader.js'']) = Rejected ''boom''"
    by (simp add: posixNode_def)
  have k: "0 < length ?ts" by simp
  have res: "reserved (?ts ! 0)" by (simp add: reserved_def)
  have x: "run_exit ?R = None"
    by (simp add: eval_strings eval_io eval_build eval_run eval_samples Let_def)
  from loader_failure_rejects[OF t a b k res, of False "worldOf []"] x res
  show ?thesis by simp
qed

text \<open>
  C3 as stated fails when the generation fails in \<^verbatim>\<open>require\<close> (line 265): the call throws
  before the rejection handler of lines 294 to 296 is attached, and the promise of
  \<open>buildIndex\<close> is rejected with the error of \<^verbatim>\<open>require\<close> itself, without the context.
\<close>

theorem loader_throw_counterexample:
  "run_settled (buildIndex bareNode
       (Some (sampleOptions [templateOf ''index'' False])) False (worldOf []))
     = Some (Rejected (ModuleNotFound ''/app/.build/gcc-args''))"
  by (simp add: eval_strings eval_io eval_build eval_run eval_samples Let_def)

text \<open>
  C2. A template whose file is missing makes both of its builds throw (lines 147 to 149
  and 197 to 199), inside the callbacks of lines 298 to 306. The promises of the two
  \<^verbatim>\<open>then\<close> calls are dropped, so the errors reach no handler, and the promise of
  \<open>buildIndex\<close> is fulfilled: the failure is not propagated to the caller.
\<close>

theorem missing_template_failure_dropped:
  "run_steps (buildIndex (posixNode Fulfilled)
       (Some (sampleOptions [templateOf ''a'' False])) False (worldOf []))
     = [DebugBuild 0, CompiledBuild 0]
   \<and> run_unhandled (buildIndex (posixNode Fulfilled)
       (Some (sampleOptions [templateOf ''a'' False])) False (worldOf []))
     = [Error ''Missing template file /app/a-template.html'',
        Error ''Missing template file /app/a-template.html'']
   \<and> run_settled (buildIndex (posixNode Fulfilled)
       (Some (sampleOptions [templateOf ''a'' False])) False (worldOf [])) = Some Fulfilled
   \<and> run_exit (buildIndex (posixNode Fulfilled)
       (Some (sampleOptions [templateOf ''a'' False])) False (worldOf [])) = None"
  by (simp add: eval_strings eval_io eval_build eval_run eval_samples Let_def)

end
